theory Spec2Isabelle
  imports Main "HOL-Library.Multiset"
begin

section \<open>Data model of \<^verbatim>\<open>wallace/models.py\<close>\<close>

text \<open>
  Every table of the ORM mapping is a record; the database is a record of lists of rows.
  Primary keys (\<^verbatim>\<open>uuid4().hex\<close> strings in the source) are opaque, so they are natural
  numbers here. Timestamps are strings in the fixed-width format \<^verbatim>\<open>%Y-%m-%dT%H:%M:%S.%f\<close>,
  whose string order is the order of the instants; they are natural numbers here.
\<close>

type_synonym uuid = nat
type_synonym timestamp = nat

text \<open>The exceptions the modelled code raises, each with the text of its message
  (format arguments left out).\<close>

datatype error =
    ValueError string
  | NameError string
  | NotImplementedError string
  | SyntaxError string

text \<open>\<^verbatim>\<open>Enum("alive", "dead", "failed", name="node_status")\<close>\<close>

datatype node_status = alive | dead | failed

text \<open>\<^verbatim>\<open>Enum("alive", "dead", name="vector_status")\<close>\<close>

datatype vector_status = vector_alive | vector_dead

text \<open>The polymorphic identities of the three node classes of the file:
  \<^verbatim>\<open>Node\<close> (\<^verbatim>\<open>'base'\<close>), \<^verbatim>\<open>Agent\<close> (\<^verbatim>\<open>'agent'\<close>) and
  \<^verbatim>\<open>Source\<close> (\<^verbatim>\<open>'generic_source'\<close>).\<close>

datatype node_type = base | agent | generic_source

record node =
  uuid :: uuid
  ntype :: node_type
  creation_time :: timestamp
  status :: node_status
  time_of_death :: "timestamp option"
  network_uuid :: "uuid option"
  participant_uuid :: "string option"

record vector =
  vector_uuid :: uuid
  origin_uuid :: uuid
  destination_uuid :: uuid
  vector_status :: vector_status
  vector_time_of_death :: "timestamp option"

record info =
  info_uuid :: uuid
  info_type :: string
  info_origin_uuid :: uuid
  info_creation_time :: timestamp
  contents :: "string option"

record transmission =
  transmission_uuid :: uuid
  transmission_info_uuid :: uuid
  transmit_time :: timestamp
  receive_time :: "timestamp option"
  transmission_destination_uuid :: uuid

record transformation =
  transformation_type :: string
  transformation_uuid :: uuid
  node_uuid :: uuid
  info_in_uuid :: uuid
  info_out_uuid :: uuid
  transform_time :: timestamp

record network =
  net_uuid :: uuid
  net_type :: string
  net_creation_time :: timestamp

text \<open>
  The session: one list of rows per table, in insertion order; a query sees every row
  (the session flushes before it queries). \<open>clock_reads\<close> counts the calls of
  \<^verbatim>\<open>timenow()\<close> so far and \<open>uuids_issued\<close> the calls of \<^verbatim>\<open>new_uuid()\<close>.

  Beside the rows, the session holds the relationship collections of its node objects,
  which the code reads as attributes:
  \<^item> \<open>outgoing_vectors s n\<close> and \<open>incoming_vectors s n\<close> are the lists the attributes
    \<^verbatim>\<open>n.outgoing_vectors\<close> and \<^verbatim>\<open>n.incoming_vectors\<close> hold (the backrefs of
    \<^verbatim>\<open>Vector.origin\<close> and \<^verbatim>\<open>Vector.destination\<close>). They start as the rows that leave or
    reach \<open>n\<close> and follow every assignment and \<^verbatim>\<open>append\<close> the code makes.
  \<^item> \<open>successors_loaded s n\<close> and \<open>predecessors_loaded s n\<close> are \<open>Some\<close> list (of the
    keys of the node objects) when the session holds a list for the attribute
    \<^verbatim>\<open>n.successors\<close> or \<^verbatim>\<open>n.predecessors\<close>, as it does once the attribute has been read,
    and \<open>None\<close> when the next read of the attribute will run its query. Nothing the code
    does to a \<^verbatim>\<open>Vector\<close> changes a list the session holds.
\<close>

record store =
  nodes :: "node list"
  vectors :: "vector list"
  infos :: "info list"
  transmissions :: "transmission list"
  transformations :: "transformation list"
  networks :: "network list"
  clock_reads :: nat
  uuids_issued :: nat
  outgoing_vectors :: "uuid \<Rightarrow> vector list"
  incoming_vectors :: "uuid \<Rightarrow> vector list"
  successors_loaded :: "uuid \<Rightarrow> uuid list option"
  predecessors_loaded :: "uuid \<Rightarrow> uuid list option"

text \<open>\<^verbatim>\<open>timenow()\<close> reads the wall clock. The clock is a parameter \<open>clk\<close>: the
  reading returned by the \<open>k\<close>-th call. Nothing is assumed of it.\<close>

definition timenow :: "(nat \<Rightarrow> timestamp) \<Rightarrow> store \<Rightarrow> timestamp \<times> store" where
  "timenow clk s = (clk (clock_reads s), s\<lparr>clock_reads := Suc (clock_reads s)\<rparr>)"

text \<open>\<^verbatim>\<open>new_uuid()\<close>: the next unused key.\<close>

definition new_uuid :: "store \<Rightarrow> uuid \<times> store" where
  "new_uuid s = (uuids_issued s, s\<lparr>uuids_issued := Suc (uuids_issued s)\<rparr>)"

text \<open>A Python object of a mapped class is a reference to its row: reading an attribute
  reads the row with that key, assigning one rewrites it.\<close>

definition get_node :: "uuid \<Rightarrow> store \<Rightarrow> node option" where
  "get_node u s = find (\<lambda>n. uuid n = u) (nodes s)"

definition update_node :: "uuid \<Rightarrow> (node \<Rightarrow> node) \<Rightarrow> store \<Rightarrow> store" where
  "update_node u f s = s\<lparr>nodes := map (\<lambda>n. if uuid n = u then f n else n) (nodes s)\<rparr>"

section \<open>\<^verbatim>\<open>Node.kill\<close> and \<^verbatim>\<open>Node.fail\<close>\<close>

text \<open>
  \<^verbatim>\<open>
  def kill(self):
      self.status = "dead"
      self.time_of_death = timenow()

  def fail(self):
      self.status = "failed"
      self.time_of_death = timenow()
  \<close>
  Neither method looks at the current status and neither can raise.
\<close>

definition kill :: "(nat \<Rightarrow> timestamp) \<Rightarrow> uuid \<Rightarrow> store \<Rightarrow> store" where
  "kill clk self s =
     (let s1 = update_node self (\<lambda>n. n\<lparr>status := dead\<rparr>) s;
          (now, s2) = timenow clk s1
      in update_node self (\<lambda>n. n\<lparr>time_of_death := Some now\<rparr>) s2)"

definition fail :: "(nat \<Rightarrow> timestamp) \<Rightarrow> uuid \<Rightarrow> store \<Rightarrow> store" where
  "fail clk self s =
     (let s1 = update_node self (\<lambda>n. n\<lparr>status := failed\<rparr>) s;
          (now, s2) = timenow clk s1
      in update_node self (\<lambda>n. n\<lparr>time_of_death := Some now\<rparr>) s2)"

section \<open>\<^verbatim>\<open>Info\<close>: write-once contents\<close>

text \<open>
  \<^verbatim>\<open>
  @validates("contents")
  def _write_once(self, key, value):
      existing = getattr(self, key)
      if existing is not None:
          raise ValueError("The contents of an info is write-once.")
      return value
  \<close>
  The validator runs on every assignment to \<^verbatim>\<open>contents\<close>, the constructor's included;
  the attribute takes the value the validator returns, and keeps its old value when the
  validator raises.
\<close>

definition write_once :: "info \<Rightarrow> string option \<Rightarrow> error + string option" where
  "write_once self v =
     (let existing = contents self
      in if existing \<noteq> None
         then Inl (ValueError ''The contents of an info is write-once.'')
         else Inr v)"

text \<open>The assignment \<^verbatim>\<open>self.contents = v\<close>: the object afterwards, and the exception
  raised, if any.\<close>

definition set_contents :: "info \<Rightarrow> string option \<Rightarrow> info \<times> error option" where
  "set_contents self v =
     (case write_once self v of
        Inl e \<Rightarrow> (self, Some e)
      | Inr v' \<Rightarrow> (self\<lparr>contents := v'\<rparr>, None))"

text \<open>A run of assignments to the same object, each in a \<^verbatim>\<open>try\<close>: the object at the end
  and the outcome of every attempt.\<close>

fun set_contents_all :: "info \<Rightarrow> string option list \<Rightarrow> info \<times> error option list" where
  "set_contents_all self [] = (self, [])"
| "set_contents_all self (v # vs) =
     (let (self', r) = set_contents self v;
          (self'', rs) = set_contents_all self' vs
      in (self'', r # rs))"

section \<open>\<^verbatim>\<open>Node\<close>: accessors and connections\<close>

text \<open>\<^verbatim>\<open>isinstance(n, C)\<close> for \<open>C\<close> one of the three node classes: \<^verbatim>\<open>Agent\<close> and
  \<^verbatim>\<open>Source\<close> are subclasses of \<^verbatim>\<open>Node\<close> and unrelated to each other.\<close>

definition isinstance :: "node \<Rightarrow> node_type \<Rightarrow> bool" where
  "isinstance n c = (c = base \<or> ntype n = c)"

text \<open>The ORM returns each object of a result once, at its first place:
  \<open>unique_from seen xs\<close> is \<open>xs\<close> without the elements of \<open>seen\<close> and without repetitions.\<close>

primrec unique_from :: "'a list \<Rightarrow> 'a list \<Rightarrow> 'a list" where
  "unique_from seen [] = []"
| "unique_from seen (x # xs) =
     (if x \<in> set seen then unique_from seen xs else x # unique_from (x # seen) xs)"

definition unique_list :: "'a list \<Rightarrow> 'a list" where
  "unique_list xs = unique_from [] xs"

text \<open>
  \<^verbatim>\<open>
  successors = relationship(
      "Node",
      secondary="vector",
      primaryjoin="Node.uuid==vector.c.origin_uuid",
      secondaryjoin="Node.uuid==vector.c.destination_uuid",
      backref="predecessors"
  )
  \<close>
  \<open>successors_query\<close> is what the relationship loads: the keys of the nodes joined to
  \<open>self\<close> through the vector table, each once. \<open>successors\<close> is the attribute read: the
  list that is loaded if there is one, else the result of the query, which stays loaded.
  The objects of the list are the node rows as they are at the time of the read.
\<close>

definition successors_query :: "uuid \<Rightarrow> store \<Rightarrow> uuid list" where
  "successors_query self s =
     unique_list (filter (\<lambda>k. get_node k s \<noteq> None)
                    (map destination_uuid (filter (\<lambda>v. origin_uuid v = self) (vectors s))))"

definition predecessors_query :: "uuid \<Rightarrow> store \<Rightarrow> uuid list" where
  "predecessors_query self s =
     unique_list (filter (\<lambda>k. get_node k s \<noteq> None)
                    (map origin_uuid (filter (\<lambda>v. destination_uuid v = self) (vectors s))))"

definition successors :: "uuid \<Rightarrow> store \<Rightarrow> node list \<times> store" where
  "successors self s =
     (case successors_loaded s self of
        Some ks \<Rightarrow> (List.map_filter (\<lambda>k. get_node k s) ks, s)
      | None \<Rightarrow>
          (let ks = successors_query self s
           in (List.map_filter (\<lambda>k. get_node k s) ks,
               s\<lparr>successors_loaded := (successors_loaded s)(self := Some ks)\<rparr>)))"

definition predecessors :: "uuid \<Rightarrow> store \<Rightarrow> node list \<times> store" where
  "predecessors self s =
     (case predecessors_loaded s self of
        Some ks \<Rightarrow> (List.map_filter (\<lambda>k. get_node k s) ks, s)
      | None \<Rightarrow>
          (let ks = predecessors_query self s
           in (List.map_filter (\<lambda>k. get_node k s) ks,
               s\<lparr>predecessors_loaded := (predecessors_loaded s)(self := Some ks)\<rparr>)))"

text \<open>
  \<^verbatim>\<open>
  @property
  def downstream_nodes(self, type=None):
      if type is None:
          type = Node
      outgoing_vectors = Vector.query.filter_by(origin=self).all()
      return [v.destination for v in outgoing_vectors
              if isinstance(v.destination, type)]
  \<close>
  \<^verbatim>\<open>v.destination\<close> is the row with key \<^verbatim>\<open>v.destination_uuid\<close>, or \<^verbatim>\<open>None\<close> (an
  instance of no class) when there is none. The function is a property, so reading the
  attribute \<^verbatim>\<open>n.downstream_nodes\<close> calls it with \<open>type = None\<close>.
\<close>

definition downstream_nodes :: "uuid \<Rightarrow> node_type option \<Rightarrow> store \<Rightarrow> node list" where
  "downstream_nodes self type s =
     (let type' = (case type of None \<Rightarrow> base | Some c \<Rightarrow> c);
          outgoing_vectors = filter (\<lambda>v. origin_uuid v = self) (vectors s)
      in List.map_filter
           (\<lambda>v. case get_node (destination_uuid v) s of
                   None \<Rightarrow> None
                 | Some d \<Rightarrow> if isinstance d type' then Some d else None)
           outgoing_vectors)"

text \<open>
  \<^verbatim>\<open>
  @property
  def upstream_nodes(self, type=None):
      if type is None:
          type = Node
      incoming_vectors = Vector.query.filter_by(destination=self).all()
      return [v.destination for v in incoming_vectors
              if isinstance(v.destination, type)]
  \<close>
  The comprehension reads \<^verbatim>\<open>v.destination\<close>, as in \<^verbatim>\<open>downstream_nodes\<close>.
\<close>

definition upstream_nodes :: "uuid \<Rightarrow> node_type option \<Rightarrow> store \<Rightarrow> node list" where
  "upstream_nodes self type s =
     (let type' = (case type of None \<Rightarrow> base | Some c \<Rightarrow> c);
          incoming_vectors = filter (\<lambda>v. destination_uuid v = self) (vectors s)
      in List.map_filter
           (\<lambda>v. case get_node (destination_uuid v) s of
                   None \<Rightarrow> None
                 | Some d \<Rightarrow> if isinstance d type' then Some d else None)
           incoming_vectors)"

text \<open>
  \<^verbatim>\<open>
  @property
  def successors2(self):
      print "successors2 is deprecated, use downstream_nodes instead"
      return downstream_nodes(self, Agent)
      # outgoing_vectors = Vector.query.filter_by(origin=self).all()
      # return [v.destination for v in outgoing_vectors
      #         if isinstance(v.destination, Agent)]
  \<close>
  In the body, \<^verbatim>\<open>downstream_nodes\<close> is a free name. It is no local of the function and
  no name of the module \<^verbatim>\<open>models.py\<close> (whose names are \<^verbatim>\<open>new_uuid\<close>, \<^verbatim>\<open>timenow\<close>,
  the mapped classes and the imports), and a class body is no enclosing scope for its
  methods: the name is looked up among the globals and the builtins, and the lookup raises
  \<^verbatim>\<open>NameError\<close> before anything is called. \<^verbatim>\<open>predecessors2\<close> fails on
  \<^verbatim>\<open>upstream_nodes\<close> in the same way. Printing is not modelled.
\<close>

definition successors2 :: "uuid \<Rightarrow> store \<Rightarrow> error + node list" where
  "successors2 self s = Inl (NameError ''downstream_nodes'')"

definition predecessors2 :: "uuid \<Rightarrow> store \<Rightarrow> error + node list" where
  "predecessors2 self s = Inl (NameError ''upstream_nodes'')"

text \<open>What the comments under the two \<^verbatim>\<open>return\<close> statements compute: the bodies the
  deprecated accessors had before they were redirected.\<close>

definition successors2_commented :: "uuid \<Rightarrow> store \<Rightarrow> node list" where
  "successors2_commented self s =
     (let outgoing_vectors = filter (\<lambda>v. origin_uuid v = self) (vectors s)
      in List.map_filter
           (\<lambda>v. case get_node (destination_uuid v) s of
                   None \<Rightarrow> None
                 | Some d \<Rightarrow> if isinstance d agent then Some d else None)
           outgoing_vectors)"

definition predecessors2_commented :: "uuid \<Rightarrow> store \<Rightarrow> node list" where
  "predecessors2_commented self s =
     (let incoming_vectors = filter (\<lambda>v. destination_uuid v = self) (vectors s)
      in List.map_filter
           (\<lambda>v. case get_node (origin_uuid v) s of
                   None \<Rightarrow> None
                 | Some d \<Rightarrow> if isinstance d agent then Some d else None)
           incoming_vectors)"

text \<open>
  \<^verbatim>\<open>
  def has_connection_to(self, other_node):
      # return other_node in self.successors
      return other_node in self.successors2

  def has_connection_from(self, other_node):
      return other_node in self.predecessors
  \<close>
  Mapped objects are compared by identity, that is by key.
\<close>

definition has_connection_to :: "uuid \<Rightarrow> uuid \<Rightarrow> store \<Rightarrow> error + bool" where
  "has_connection_to self other_node s =
     (case successors2 self s of
        Inl e \<Rightarrow> Inl e
      | Inr ns \<Rightarrow> Inr (other_node \<in> set (map uuid ns)))"

definition has_connection_from :: "uuid \<Rightarrow> uuid \<Rightarrow> store \<Rightarrow> bool \<times> store" where
  "has_connection_from self other_node s =
     (let (ns, s1) = predecessors self s in (other_node \<in> set (map uuid ns), s1))"

text \<open>
  \<^verbatim>\<open>
  def connect_to(self, other_node):
      vector = Vector(origin=self, destination=other_node)
      self.outgoing_vectors.append(vector)
      return vector
  \<close>
  and
  \<^verbatim>\<open>
  def connect_from(self, other_node):
      vector = Vector(origin=other_node, destination=self)
      self.incoming_vectors.append(vector)
      return vector
  \<close>
  \<open>Vector_init\<close> is the constructor call \<^verbatim>\<open>Vector(origin=a, destination=b)\<close>: one new row
  of the vector table, with the column defaults; the two assignments it makes put the new
  object, through the backrefs, at the end of \<^verbatim>\<open>a.outgoing_vectors\<close> and of
  \<^verbatim>\<open>b.incoming_vectors\<close>. The \<^verbatim>\<open>append\<close> that follows in \<^verbatim>\<open>connect_to\<close> and
  \<^verbatim>\<open>connect_from\<close> puts the same object into the list once more.
\<close>

definition Vector_init :: "uuid \<Rightarrow> uuid \<Rightarrow> store \<Rightarrow> vector \<times> store" where
  "Vector_init origin destination s =
     (let (u, s1) = new_uuid s;
          vector = \<lparr>vector_uuid = u, origin_uuid = origin, destination_uuid = destination,
                    vector_status = vector_alive, vector_time_of_death = None\<rparr>;
          s2 = s1\<lparr>vectors := vectors s1 @ [vector]\<rparr>;
          s3 = s2\<lparr>outgoing_vectors :=
                    (outgoing_vectors s2)(origin := outgoing_vectors s2 origin @ [vector])\<rparr>;
          s4 = s3\<lparr>incoming_vectors :=
                    (incoming_vectors s3)(destination := incoming_vectors s3 destination @ [vector])\<rparr>
      in (vector, s4))"

definition connect_to :: "uuid \<Rightarrow> uuid \<Rightarrow> store \<Rightarrow> vector \<times> store" where
  "connect_to self other_node s =
     (let (vector, s1) = Vector_init self other_node s
      in (vector,
          s1\<lparr>outgoing_vectors :=
               (outgoing_vectors s1)(self := outgoing_vectors s1 self @ [vector])\<rparr>))"

definition connect_from :: "uuid \<Rightarrow> uuid \<Rightarrow> store \<Rightarrow> vector \<times> store" where
  "connect_from self other_node s =
     (let (vector, s1) = Vector_init other_node self s
      in (vector,
          s1\<lparr>incoming_vectors :=
               (incoming_vectors s1)(self := incoming_vectors s1 self @ [vector])\<rparr>))"

text \<open>
  \<^verbatim>\<open>
  @hybrid_property
  def outdegree(self):
      return len(self.outgoing_vectors)

  @hybrid_property
  def indegree(self):
      return len(self.incoming_vectors)
  \<close>
  read on a node object: the length of the list the attribute holds.
\<close>

definition outdegree :: "uuid \<Rightarrow> store \<Rightarrow> nat" where
  "outdegree self s = length (outgoing_vectors s self)"

definition indegree :: "uuid \<Rightarrow> store \<Rightarrow> nat" where
  "indegree self s = length (incoming_vectors s self)"

section \<open>\<^verbatim>\<open>Node.transmit\<close>\<close>

text \<open>
  The two arguments of \<^verbatim>\<open>transmit\<close> are dynamically typed. \<open>what\<close> is \<^verbatim>\<open>None\<close>, a
  list, the class \<^verbatim>\<open>Info\<close> (the only Info class of the file), an Info object, or
  anything else; \<open>to_whom\<close> is \<^verbatim>\<open>None\<close>, a list, one of the node classes, a node
  object, or anything else.
\<close>

datatype what_arg = WNone | WList "what_arg list" | WInfoClass | WInfo info | WOther
datatype whom_arg = TNone | TList "whom_arg list" | TClass node_type | TNode node | TOther

text \<open>How far an argument is from a list of concrete objects, and the length of a list:
  the measures under which the recursion of \<^verbatim>\<open>transmit\<close> ends.\<close>

primrec what_depth :: "what_arg \<Rightarrow> nat" where
  "what_depth WNone = 3"
| "what_depth (WList ws) = Suc (foldr max (map what_depth ws) 0)"
| "what_depth WInfoClass = 2"
| "what_depth (WInfo i) = 0"
| "what_depth WOther = 0"

primrec whom_depth :: "whom_arg \<Rightarrow> nat" where
  "whom_depth TNone = 3"
| "whom_depth (TList ws) = Suc (foldr max (map whom_depth ws) 0)"
| "whom_depth (TClass c) = 2"
| "whom_depth (TNode n) = 0"
| "whom_depth TOther = 0"

fun what_len :: "what_arg \<Rightarrow> nat" where
  "what_len (WList ws) = length ws"
| "what_len _ = 0"

fun whom_len :: "whom_arg \<Rightarrow> nat" where
  "whom_len (TList ws) = length ws"
| "whom_len _ = 0"

text \<open>
  \<^verbatim>\<open>
  def _what(self):
      return Info

  def _to_whom(self):
      return Node
  \<close>
  No class of the file overrides the two hooks.
\<close>

definition what_hook :: "uuid \<Rightarrow> what_arg" where
  "what_hook self = WInfoClass"

definition to_whom_hook :: "uuid \<Rightarrow> whom_arg" where
  "to_whom_hook self = TClass base"

text \<open>\<^verbatim>\<open>x is None or (isinstance(x, list) and None in x)\<close>\<close>

fun what_has_None :: "what_arg \<Rightarrow> bool" where
  "what_has_None WNone = True"
| "what_has_None (WList ws) = (WNone \<in> set ws)"
| "what_has_None _ = False"

fun whom_has_None :: "whom_arg \<Rightarrow> bool" where
  "whom_has_None TNone = True"
| "whom_has_None (TList ws) = (TNone \<in> set ws)"
| "whom_has_None _ = False"

text \<open>
  \<^verbatim>\<open>
  t = Transmission(info=what, destination=to_whom)
  what.transmissions.append(t)
  \<close>
  One new row of the transmission table; \<^verbatim>\<open>uuid\<close> and \<^verbatim>\<open>transmit_time\<close> take their
  column defaults \<^verbatim>\<open>new_uuid\<close> and \<^verbatim>\<open>timenow\<close>.
\<close>

definition new_transmission :: "(nat \<Rightarrow> timestamp) \<Rightarrow> info \<Rightarrow> uuid \<Rightarrow> store \<Rightarrow> store" where
  "new_transmission clk what to_whom s =
     (let (u, s1) = new_uuid s;
          (now, s2) = timenow clk s1;
          t = \<lparr>transmission_uuid = u, transmission_info_uuid = info_uuid what,
               transmit_time = now, receive_time = None,
               transmission_destination_uuid = to_whom\<rparr>
      in s2\<lparr>transmissions := transmissions s2 @ [t]\<rparr>)"

lemma foldr_max_le: "foldr max (map f xs) (0::nat) \<le> n \<longleftrightarrow> (\<forall>x\<in>set xs. f x \<le> n)"
  by (induction xs) auto

lemma foldr_max_zero: "foldr max (map (\<lambda>x. 0) xs) (0::nat) = 0"
  by (induction xs) auto

text \<open>
  \<^verbatim>\<open>transmit\<close> follows the source branch by branch. A \<^verbatim>\<open>for\<close> loop over a list is the
  pair of equations for the empty list and for \<open>w # ws\<close>; an exception ends the loop and
  leaves the rows written so far. The result is the exception raised, if any, and the
  store afterwards.
\<close>

function transmit ::
  "(nat \<Rightarrow> timestamp) \<Rightarrow> uuid \<Rightarrow> what_arg \<Rightarrow> whom_arg \<Rightarrow> store \<Rightarrow> error option \<times> store" where
  "transmit clk self WNone to_whom s =
     (let what = what_hook self
      in if what_has_None what
         then (Some (ValueError ''Your _what() method cannot return None.''), s)
         else transmit clk self what to_whom s)"
| "transmit clk self (WList []) to_whom s = (None, s)"
| "transmit clk self (WList (w # ws)) to_whom s =
     (case transmit clk self w to_whom s of
        (Some e, s') \<Rightarrow> (Some e, s')
      | (None, s') \<Rightarrow> transmit clk self (WList ws) to_whom s')"
| "transmit clk self WInfoClass to_whom s =
     (let infos = rev (sort_key info_creation_time
                        (filter (\<lambda>i. info_origin_uuid i = self) (infos s)))
      in transmit clk self (WList (map WInfo infos)) to_whom s)"
| "transmit clk self (WInfo what) to_whom s =
     (if info_origin_uuid what \<noteq> self
      then (Some (ValueError ''Cannot transmit because {} is not the origin of {}''), s)
      else (case to_whom of
          TNone \<Rightarrow>
            (let to_whom' = to_whom_hook self
             in if whom_has_None to_whom'
                then (Some (ValueError ''Your _to_whom() method cannot return None.''), s)
                else transmit clk self (WInfo what) to_whom' s)
        | TList [] \<Rightarrow> (None, s)
        | TList (w # ws) \<Rightarrow>
            (case transmit clk self (WInfo what) w s of
               (Some e, s') \<Rightarrow> (Some e, s')
             | (None, s') \<Rightarrow> transmit clk self (WInfo what) (TList ws) s')
        | TClass c \<Rightarrow>
            (let (successors', s1) = successors self s;
                 to_whom' = filter (\<lambda>w. isinstance w c) successors'
             in transmit clk self (WInfo what) (TList (map TNode to_whom')) s1)
        | TNode n \<Rightarrow>
            (case has_connection_to self (uuid n) s of
               Inl e \<Rightarrow> (Some e, s)
             | Inr connected \<Rightarrow>
                 if \<not> connected
                 then (Some (ValueError ''You are trying to transmit from'{}' to '{}', but they are not connected''), s)
                 else (None, new_transmission clk what (uuid n) s))
        | TOther \<Rightarrow>
            (Some (ValueError ''You are trying to transmit to '{}', but it is not a Node''), s)))"
| "transmit clk self WOther to_whom s =
     (Some (ValueError ''You are trying to transmit '{}', but it is not an Info''), s)"
  by pat_completeness auto

termination
  apply (relation "inv_image (less_than <*lex*> less_than <*lex*> less_than <*lex*> less_than)
     (\<lambda>(clk, self, what, to_whom, s).
        (what_depth what, what_len what, whom_depth to_whom, whom_len to_whom))")
  apply (auto simp: what_hook_def to_whom_hook_def foldr_max_le foldr_max_zero comp_def)
  done

section \<open>\<^verbatim>\<open>Node.receive_all\<close>\<close>

definition get_info :: "uuid \<Rightarrow> store \<Rightarrow> info option" where
  "get_info u s = find (\<lambda>i. info_uuid i = u) (infos s)"

text \<open>
  \<^verbatim>\<open>
  @property
  def pending_transmissions(self):
      return Transmission\
          .query\
          .filter_by(destination_uuid=self.uuid)\
          .filter_by(receive_time=None)\
          .order_by(Transmission.transmit_time)\
          .all()
  \<close>
\<close>

definition pending_transmissions :: "uuid \<Rightarrow> store \<Rightarrow> transmission list" where
  "pending_transmissions self s =
     sort_key transmit_time
       (filter (\<lambda>t. receive_time t = None)
          (filter (\<lambda>t. transmission_destination_uuid t = self) (transmissions s)))"

definition incoming_transmissions :: "uuid \<Rightarrow> store \<Rightarrow> transmission list" where
  "incoming_transmissions self s =
     sort_key transmit_time
       (filter (\<lambda>t. transmission_destination_uuid t = self) (transmissions s))"

text \<open>The assignment \<^verbatim>\<open>transmission.receive_time = now\<close> on the row with key \<open>t\<close>.\<close>

definition set_receive_time :: "uuid \<Rightarrow> timestamp \<Rightarrow> store \<Rightarrow> store" where
  "set_receive_time t now s =
     s\<lparr>transmissions :=
         map (\<lambda>x. if transmission_uuid x = t then x\<lparr>receive_time := Some now\<rparr> else x)
           (transmissions s)\<rparr>"

text \<open>
  \<^verbatim>\<open>
  def mark_received(self):
      self.receive_time = timenow()
  \<close>
\<close>

definition mark_received :: "(nat \<Rightarrow> timestamp) \<Rightarrow> uuid \<Rightarrow> store \<Rightarrow> store" where
  "mark_received clk self s = (let (now, s1) = timenow clk s in set_receive_time self now s1)"

text \<open>
  \<^verbatim>\<open>
  def update(self, infos):
      raise NotImplementedError(
          "The update method of node '{}' has not been overridden".format(self))
  \<close>
  in \<^verbatim>\<open>Node\<close>, inherited by \<^verbatim>\<open>Source\<close>; \<^verbatim>\<open>Agent.update\<close> is
  \<^verbatim>\<open>raise NotImplementedError\<close>. The elements of \<open>infos\<close> are the values of
  \<^verbatim>\<open>t.info\<close>: the Info row, or \<^verbatim>\<open>None\<close> where the key names no row.
\<close>

type_synonym update_method = "uuid \<Rightarrow> info option list \<Rightarrow> store \<Rightarrow> error option \<times> store"

definition Node_update :: update_method where
  "Node_update self infos' s =
     (Some (NotImplementedError ''The update method of node '{}' has not been overridden''), s)"

definition Agent_update :: update_method where
  "Agent_update self infos' s = (Some (NotImplementedError []), s)"

text \<open>Method resolution for the three classes of the file.\<close>

fun update_of :: "node_type \<Rightarrow> update_method" where
  "update_of base = Node_update"
| "update_of agent = Agent_update"
| "update_of generic_source = Node_update"

text \<open>
  \<^verbatim>\<open>
  def receive_all(self):
      pending_transmissions = self.pending_transmissions
      for transmission in pending_transmissions:
          transmission.receive_time = timenow()
          transmission.mark_received()
      self.update([t.info for t in pending_transmissions])
  \<close>
  \<open>receive_loop\<close> is the \<^verbatim>\<open>for\<close> loop; \<open>update\<close> is the method the class of \<open>self\<close>
  resolves \<^verbatim>\<open>self.update\<close> to.
\<close>

fun receive_loop :: "(nat \<Rightarrow> timestamp) \<Rightarrow> transmission list \<Rightarrow> store \<Rightarrow> store" where
  "receive_loop clk [] s = s"
| "receive_loop clk (transmission # ts) s =
     (let (now, s1) = timenow clk s;
          s2 = set_receive_time (transmission_uuid transmission) now s1;
          s3 = mark_received clk (transmission_uuid transmission) s2
      in receive_loop clk ts s3)"

definition receive_all ::
  "(nat \<Rightarrow> timestamp) \<Rightarrow> update_method \<Rightarrow> uuid \<Rightarrow> store \<Rightarrow> error option \<times> store" where
  "receive_all clk update self s =
     (let pending = pending_transmissions self s;
          s' = receive_loop clk pending s
      in update self (map (\<lambda>t. get_info (transmission_info_uuid t) s') pending) s')"

section \<open>\<^verbatim>\<open>Network\<close>\<close>

text \<open>
  \<^verbatim>\<open>
  @property
  def agents(self):
      return Agent.query.order_by(Agent.creation_time)
          .filter(Agent.status != "failed")
          .filter(Agent.network == self)
          .filter(Agent.status != "dead").all()

  @property
  def sources(self):
      return Source.query.order_by(Source.creation_time)
          .filter(Source.network == self).all()
  \<close>
  \<^verbatim>\<open>Agent.query\<close> and \<^verbatim>\<open>Source.query\<close> range over the node rows of that class. Rows
  with equal creation times come in table order.
\<close>

definition agents :: "uuid \<Rightarrow> store \<Rightarrow> node list" where
  "agents self s =
     sort_key creation_time
       (filter (\<lambda>n. status n \<noteq> dead)
          (filter (\<lambda>n. network_uuid n = Some self)
             (filter (\<lambda>n. status n \<noteq> failed)
                (filter (\<lambda>n. isinstance n agent) (nodes s)))))"

definition sources :: "uuid \<Rightarrow> store \<Rightarrow> node list" where
  "sources self s =
     sort_key creation_time
       (filter (\<lambda>n. network_uuid n = Some self)
          (filter (\<lambda>n. isinstance n generic_source) (nodes s)))"

definition network_nodes :: "uuid \<Rightarrow> store \<Rightarrow> node list" where
  "network_nodes self s = sources self s @ agents self s"

text \<open>
  \<^verbatim>\<open>
  def get_degrees(self):
      return [agent.outdegree for agent in self.agents]
  \<close>
\<close>

definition get_degrees :: "uuid \<Rightarrow> store \<Rightarrow> nat list" where
  "get_degrees self s = map (\<lambda>a. outdegree (uuid a) s) (agents self s)"

text \<open>The assignment \<^verbatim>\<open>node.network = net\<close>, and \<^verbatim>\<open>vector.network = net\<close>, which the
  association proxy \<^verbatim>\<open>association_proxy('origin', 'network')\<close> turns into
  \<^verbatim>\<open>vector.origin.network = net\<close>.\<close>

definition set_network :: "uuid \<Rightarrow> uuid \<Rightarrow> store \<Rightarrow> store" where
  "set_network n net s = update_node n (\<lambda>x. x\<lparr>network_uuid := Some net\<rparr>) s"

definition set_vector_network :: "vector \<Rightarrow> uuid \<Rightarrow> store \<Rightarrow> store" where
  "set_vector_network v net s = set_network (origin_uuid v) net s"

text \<open>
  \<^verbatim>\<open>
  def add_source_global(self, source):
      vectors = []
      for agent in self.agents:
          vectors.append(source.connect_to(agent))

      source.network = self
      for vector in vectors:
          vector.network = self
      return vectors
  \<close>
  \<open>connect_loop\<close> is the first loop, with the list \<^verbatim>\<open>vectors\<close> as accumulator, and
  \<open>network_loop\<close> the second.
\<close>

fun connect_loop :: "uuid \<Rightarrow> node list \<Rightarrow> vector list \<Rightarrow> store \<Rightarrow> vector list \<times> store" where
  "connect_loop source [] vs s = (vs, s)"
| "connect_loop source (a # as) vs s =
     (let (v, s1) = connect_to source (uuid a) s
      in connect_loop source as (vs @ [v]) s1)"

fun network_loop :: "uuid \<Rightarrow> vector list \<Rightarrow> store \<Rightarrow> store" where
  "network_loop self [] s = s"
| "network_loop self (vector # vs) s = network_loop self vs (set_vector_network vector self s)"

definition add_source_global :: "uuid \<Rightarrow> uuid \<Rightarrow> store \<Rightarrow> vector list \<times> store" where
  "add_source_global self source s =
     (let (vs, s1) = connect_loop source (agents self s) [] s;
          s2 = set_network source self s1;
          s3 = network_loop self vs s2
      in (vs, s3))"

section \<open>\<^verbatim>\<open>serialized\<close> (\<^verbatim>\<open>dallinger/db.py\<close>)\<close>

text \<open>
  \<^verbatim>\<open>
  def wrapper(*args, **kw):
      attempts = 100
      while attempts > 0:
          try:
              session.connection(
                  execution_options={'isolation_level': 'SERIALIZABLE'})
              with sessions_scope(session, commit=True):
                  return func(*args, **kw)
          except OperationalError as exc:
              if isinstance(exc.orig, TransactionRollbackError):
                  if attempts > 0:
                      attempts -= 1
                  else:
                      raise Exception(
                          'Could not commit serialized transaction '
                          'after 100 attempts.')
              else:
                  raise
  \<close>
  One run of the body of \<^verbatim>\<open>try\<close> (open the connection, call \<^verbatim>\<open>func\<close>, commit) either
  returns the value of \<^verbatim>\<open>func\<close> or raises. \<open>OperationalError True\<close> is an
  \<^verbatim>\<open>OperationalError\<close> whose \<^verbatim>\<open>orig\<close> is a \<^verbatim>\<open>TransactionRollbackError\<close>, the
  serialization conflict; \<open>OperationalError False\<close> is any other one; \<open>Exception\<close> is
  an exception of another class, with its message.
\<close>

datatype db_exception = OperationalError bool | Exception string

datatype 'a attempt = Return 'a | Raise db_exception

text \<open>
  The wrapped operation is \<open>func\<close>: the outcome of its \<open>k\<close>-th run. The result of the
  wrapper is what it returns (\<open>None\<close> when control leaves the \<^verbatim>\<open>while\<close> loop and falls
  off the end of the function) or the exception it raises, with the number of runs made.
\<close>

function serialized_loop ::
  "(nat \<Rightarrow> 'a attempt) \<Rightarrow> int \<Rightarrow> nat \<Rightarrow> (db_exception + 'a option) \<times> nat" where
  "serialized_loop func attempts runs =
     (if attempts > 0
      then (case func runs of
              Return v \<Rightarrow> (Inr (Some v), Suc runs)
            | Raise (OperationalError True) \<Rightarrow>
                if attempts > 0
                then serialized_loop func (attempts - 1) (Suc runs)
                else (Inl (Exception ''Could not commit serialized transaction after 100 attempts.''),
                      Suc runs)
            | Raise e \<Rightarrow> (Inl e, Suc runs))
      else (Inr None, runs))"
  by pat_completeness auto
termination
  by (relation "measure (\<lambda>(func, attempts, runs). nat attempts)") auto

definition serialized :: "(nat \<Rightarrow> 'a attempt) \<Rightarrow> (db_exception + 'a option) \<times> nat" where
  "serialized func = serialized_loop func 100 0"

section \<open>Example data\<close>

text \<open>A clock, two agents and a source of network 10, and a store holding them.\<close>

definition ex_clock :: "nat \<Rightarrow> timestamp" where
  "ex_clock k = 1000 + k"

definition node_A1 :: node where
  "node_A1 = \<lparr>uuid = 11, ntype = agent, creation_time = 10, status = alive,
     time_of_death = None, network_uuid = Some 10, participant_uuid = None\<rparr>"

definition node_A2 :: node where
  "node_A2 = \<lparr>uuid = 12, ntype = agent, creation_time = 11, status = alive,
     time_of_death = None, network_uuid = Some 10, participant_uuid = None\<rparr>"

definition node_S :: node where
  "node_S = \<lparr>uuid = 13, ntype = generic_source, creation_time = 12, status = alive,
     time_of_death = None, network_uuid = None, participant_uuid = None\<rparr>"

definition info_blank :: info where
  "info_blank = \<lparr>info_uuid = 7, info_type = ''base'', info_origin_uuid = 11,
     info_creation_time = 20, contents = None\<rparr>"

definition info_x :: info where
  "info_x = \<lparr>info_uuid = 8, info_type = ''base'', info_origin_uuid = 11,
     info_creation_time = 21, contents = Some ''x''\<rparr>"

definition net_N :: network where
  "net_N = \<lparr>net_uuid = 10, net_type = ''base'', net_creation_time = 5\<rparr>"

definition store0 :: store where
  "store0 = \<lparr>nodes = [node_A1, node_A2, node_S], vectors = [], infos = [info_x],
     transmissions = [], transformations = [], networks = [net_N],
     clock_reads = 0, uuids_issued = 100,
     outgoing_vectors = (\<lambda>n. []), incoming_vectors = (\<lambda>n. []),
     successors_loaded = (\<lambda>n. None), predecessors_loaded = (\<lambda>n. None)\<rparr>"

text \<open>Three sources of network 10, one of each status, beside an agent.\<close>

definition source_alive :: node where
  "source_alive = \<lparr>uuid = 21, ntype = generic_source, creation_time = 32, status = alive,
     time_of_death = None, network_uuid = Some 10, participant_uuid = None\<rparr>"

definition source_dead :: node where
  "source_dead = \<lparr>uuid = 22, ntype = generic_source, creation_time = 31, status = dead,
     time_of_death = Some 40, network_uuid = Some 10, participant_uuid = None\<rparr>"

definition source_failed :: node where
  "source_failed = \<lparr>uuid = 23, ntype = generic_source, creation_time = 30, status = failed,
     time_of_death = Some 41, network_uuid = Some 10, participant_uuid = None\<rparr>"

definition store_sources :: store where
  "store_sources = store0\<lparr>nodes := [source_alive, node_A1, source_dead, source_failed]\<rparr>"

text \<open>The example store after \<^verbatim>\<open>A1.connect_to(A2)\<close>, and the example store with no
  Info at all.\<close>

definition store_connected :: store where
  "store_connected = snd (connect_to 11 12 store0)"

definition store_quiet :: store where
  "store_quiet = store0\<lparr>infos := []\<rparr>"

text \<open>Three transmissions to \<^verbatim>\<open>A2\<close>: two pending, sent at 31 and at 30, and one received.\<close>

definition store_tx :: store where
  "store_tx = store0\<lparr>transmissions :=
     [\<lparr>transmission_uuid = 50, transmission_info_uuid = 8, transmit_time = 31,
        receive_time = None, transmission_destination_uuid = 12\<rparr>,
      \<lparr>transmission_uuid = 51, transmission_info_uuid = 8, transmit_time = 30,
        receive_time = None, transmission_destination_uuid = 12\<rparr>,
      \<lparr>transmission_uuid = 52, transmission_info_uuid = 8, transmit_time = 29,
        receive_time = Some 35, transmission_destination_uuid = 12\<rparr>]\<rparr>"

text \<open>An operation whose every run ends in a serialization conflict.\<close>

definition always_conflict :: "nat \<Rightarrow> unit attempt" where
  "always_conflict k = Raise (OperationalError True)"

section \<open>Notions used in the statements and proofs\<close>

text \<open>Two node rows that agree on every column but \<^verbatim>\<open>status\<close> and \<^verbatim>\<open>time_of_death\<close>.\<close>

definition same_but_status_and_death :: "node \<Rightarrow> node \<Rightarrow> bool" where
  "same_but_status_and_death m m' =
     (uuid m' = uuid m \<and> ntype m' = ntype m \<and> creation_time m' = creation_time m
      \<and> network_uuid m' = network_uuid m \<and> participant_uuid m' = participant_uuid m)"

text \<open>The row a call of \<^verbatim>\<open>connect_to\<close> inserts.\<close>

definition new_vector :: "uuid \<Rightarrow> uuid \<Rightarrow> uuid \<Rightarrow> vector" where
  "new_vector k a b = \<lparr>vector_uuid = k, origin_uuid = a, destination_uuid = b,
       vector_status = vector_alive, vector_time_of_death = None\<rparr>"

text \<open>The loop of \<^verbatim>\<open>receive_all\<close> in closed form: \<open>stamp_of clk r ts u\<close> is the last
  clock reading the loop over \<open>ts\<close>, started after \<open>r\<close> readings, assigns to the row with
  key \<open>u\<close>, and \<open>stamped\<close> is the row after the loop.\<close>

fun stamp_of :: "(nat \<Rightarrow> timestamp) \<Rightarrow> nat \<Rightarrow> transmission list \<Rightarrow> uuid \<Rightarrow> timestamp option" where
  "stamp_of clk r [] u = None"
| "stamp_of clk r (t # ts) u =
     (case stamp_of clk (Suc (Suc r)) ts u of
        Some w \<Rightarrow> Some w
      | None \<Rightarrow> if transmission_uuid t = u then Some (clk (Suc r)) else None)"

definition stamped :: "(nat \<Rightarrow> timestamp) \<Rightarrow> nat \<Rightarrow> transmission list \<Rightarrow> transmission \<Rightarrow> transmission" where
  "stamped clk r ts x =
     (case stamp_of clk r ts (transmission_uuid x) of
        None \<Rightarrow> x
      | Some w \<Rightarrow> x\<lparr>receive_time := Some w\<rparr>)"

text \<open>
  When the arguments of \<^verbatim>\<open>transmit\<close> resolve to nothing. The content resolves to nothing
  when \<open>what\<close> is \<^verbatim>\<open>None\<close> or the class \<^verbatim>\<open>Info\<close> and the node authored no Info, or
  a list (the empty one included) of arguments that all resolve to nothing. The
  recipients resolve to nothing when \<open>to_whom\<close> is \<^verbatim>\<open>None\<close> or a node class and
  \<^verbatim>\<open>self.successors\<close> holds no node of that class (of class \<^verbatim>\<open>Node\<close> for \<^verbatim>\<open>None\<close>), or
  a list (the empty one included) of arguments that all resolve to nothing.
  \<open>owned_content\<close> holds of the contents the node may transmit: \<^verbatim>\<open>None\<close>, the class
  \<^verbatim>\<open>Info\<close>, an Info the node authored, and the lists of these.
\<close>

fun what_resolves_empty :: "uuid \<Rightarrow> store \<Rightarrow> what_arg \<Rightarrow> bool" where
  "what_resolves_empty self s WNone = (filter (\<lambda>i. info_origin_uuid i = self) (infos s) = [])"
| "what_resolves_empty self s (WList ws) = (\<forall>w\<in>set ws. what_resolves_empty self s w)"
| "what_resolves_empty self s WInfoClass = (filter (\<lambda>i. info_origin_uuid i = self) (infos s) = [])"
| "what_resolves_empty self s (WInfo i) = False"
| "what_resolves_empty self s WOther = False"

fun owned_content :: "uuid \<Rightarrow> what_arg \<Rightarrow> bool" where
  "owned_content self WNone = True"
| "owned_content self (WList ws) = (\<forall>w\<in>set ws. owned_content self w)"
| "owned_content self WInfoClass = True"
| "owned_content self (WInfo i) = (info_origin_uuid i = self)"
| "owned_content self WOther = False"

fun whom_resolves_empty :: "uuid \<Rightarrow> store \<Rightarrow> whom_arg \<Rightarrow> bool" where
  "whom_resolves_empty self s TNone =
     (filter (\<lambda>w. isinstance w base) (fst (successors self s)) = [])"
| "whom_resolves_empty self s (TList ts) = (\<forall>t\<in>set ts. whom_resolves_empty self s t)"
| "whom_resolves_empty self s (TClass c) =
     (filter (\<lambda>w. isinstance w c) (fst (successors self s)) = [])"
| "whom_resolves_empty self s (TNode n) = False"
| "whom_resolves_empty self s TOther = False"

text \<open>Two stores with the same rows in every table.\<close>

definition same_rows :: "store \<Rightarrow> store \<Rightarrow> bool" where
  "same_rows s s' =
     (nodes s' = nodes s \<and> vectors s' = vectors s \<and> infos s' = infos s
      \<and> transmissions s' = transmissions s \<and> transformations s' = transformations s
      \<and> networks s' = networks s)"

text \<open>A store and what it is after the attribute \<^verbatim>\<open>self.successors\<close> has been read at most
  once more.\<close>

definition loaded_or_same :: "uuid \<Rightarrow> store \<Rightarrow> store \<Rightarrow> bool" where
  "loaded_or_same self s s' = (s' = s \<or> s' = snd (successors self s))"

section \<open>Write-once contents\<close>

lemma set_contents_all_written:
  "contents i \<noteq> None \<Longrightarrow>
   set_contents_all i ws =
     (i, replicate (length ws) (Some (ValueError ''The contents of an info is write-once.'')))"
  by (induction ws) (auto simp: set_contents_def write_once_def)

text \<open>
  C1. For every Info whose contents are still null, the first assignment of a non-null
  value succeeds and stores it; after that, every assignment to the contents (of the same
  value, of another one, of \<^verbatim>\<open>None\<close>), and every run of such assignments, raises the
  \<^verbatim>\<open>ValueError\<close> of the write-once validator and leaves the object, and so the stored
  contents, as it was.
\<close>

theorem write_once_contents:
  assumes "contents i = None"
  shows "set_contents i (Some c) = (i\<lparr>contents := Some c\<rparr>, None)
       \<and> (\<forall>w. set_contents (i\<lparr>contents := Some c\<rparr>) w =
               (i\<lparr>contents := Some c\<rparr>,
                Some (ValueError ''The contents of an info is write-once.'')))
       \<and> (\<forall>ws. set_contents_all (i\<lparr>contents := Some c\<rparr>) ws =
               (i\<lparr>contents := Some c\<rparr>,
                replicate (length ws)
                  (Some (ValueError ''The contents of an info is write-once.''))))"
proof (intro conjI allI)
  show "set_contents i (Some c) = (i\<lparr>contents := Some c\<rparr>, None)"
    using assms by (simp add: set_contents_def write_once_def)
next
  fix w
  show "set_contents (i\<lparr>contents := Some c\<rparr>) w =
          (i\<lparr>contents := Some c\<rparr>,
           Some (ValueError ''The contents of an info is write-once.''))"
    by (simp add: set_contents_def write_once_def)
next
  fix ws
  show "set_contents_all (i\<lparr>contents := Some c\<rparr>) ws =
          (i\<lparr>contents := Some c\<rparr>,
           replicate (length ws)
             (Some (ValueError ''The contents of an info is write-once.'')))"
    by (rule set_contents_all_written) simp
qed

theorem write_once_contents_witness:
  "contents info_blank = None
   \<and> set_contents info_blank (Some ''x'') = (info_blank\<lparr>contents := Some ''x''\<rparr>, None)
   \<and> set_contents (info_blank\<lparr>contents := Some ''x''\<rparr>) (Some ''x'') =
       (info_blank\<lparr>contents := Some ''x''\<rparr>,
        Some (ValueError ''The contents of an info is write-once.''))
   \<and> set_contents (info_blank\<lparr>contents := Some ''x''\<rparr>) None =
       (info_blank\<lparr>contents := Some ''x''\<rparr>,
        Some (ValueError ''The contents of an info is write-once.''))"
proof -
  have h: "contents info_blank = None" by (simp add: info_blank_def)
  from write_once_contents [OF h, of "''x''"] h show ?thesis by blast
qed

section \<open>Killing and failing a node\<close>

lemma find_map_update:
  assumes "\<And>n. uuid (f n) = uuid n"
  shows "find (\<lambda>n. uuid n = u) (map (\<lambda>n. if uuid n = u then f n else n) xs)
         = map_option f (find (\<lambda>n. uuid n = u) xs)"
  by (induction xs) (auto simp: assms)

lemma get_node_update_node:
  assumes "\<And>n. uuid (f n) = uuid n"
  shows "get_node u (update_node u f s) = map_option f (get_node u s)"
  using find_map_update [of f u "nodes s"] assms by (simp add: get_node_def update_node_def)

lemma nodes_kill:
  "nodes (kill clk u s) =
     map (\<lambda>n. if uuid n = u then n\<lparr>status := dead, time_of_death := Some (clk (clock_reads s))\<rparr> else n)
       (nodes s)"
  by (simp add: kill_def update_node_def timenow_def comp_def)

lemma nodes_fail:
  "nodes (fail clk u s) =
     map (\<lambda>n. if uuid n = u then n\<lparr>status := failed, time_of_death := Some (clk (clock_reads s))\<rparr> else n)
       (nodes s)"
  by (simp add: fail_def update_node_def timenow_def comp_def)

lemma clock_reads_kill: "clock_reads (kill clk u s) = Suc (clock_reads s)"
  by (simp add: kill_def update_node_def timenow_def)

lemma clock_reads_fail: "clock_reads (fail clk u s) = Suc (clock_reads s)"
  by (simp add: fail_def update_node_def timenow_def)

lemma get_node_kill:
  "get_node u (kill clk u s) =
     map_option (\<lambda>n. n\<lparr>status := dead, time_of_death := Some (clk (clock_reads s))\<rparr>) (get_node u s)"
  using find_map_update [of "\<lambda>n. n\<lparr>status := dead, time_of_death := Some (clk (clock_reads s))\<rparr>" u "nodes s"]
  by (simp add: get_node_def nodes_kill)

lemma get_node_fail:
  "get_node u (fail clk u s) =
     map_option (\<lambda>n. n\<lparr>status := failed, time_of_death := Some (clk (clock_reads s))\<rparr>) (get_node u s)"
  using find_map_update [of "\<lambda>n. n\<lparr>status := failed, time_of_death := Some (clk (clock_reads s))\<rparr>" u "nodes s"]
  by (simp add: get_node_def nodes_fail)

text \<open>
  C4. The code does not keep what the claim says. With a clock that reads 1000 and then
  1001, \<^verbatim>\<open>kill()\<close> on the alive node \<^verbatim>\<open>A1\<close> sets the time of death 1000; a second
  \<^verbatim>\<open>kill()\<close> is not a no-op: it changes the row, overwriting the time of death with 1001;
  and \<^verbatim>\<open>fail()\<close> after \<^verbatim>\<open>kill()\<close> raises nothing and moves the node from \<^verbatim>\<open>dead\<close> to
  \<^verbatim>\<open>failed\<close>. The source documents the column \<^verbatim>\<open>time_of_death\<close> as
  \<^verbatim>\<open>the time when the node changed from alive->dead or alive->failed\<close>.
\<close>

theorem kill_twice_or_fail_after_kill:
  "nodes (kill ex_clock 11 (kill ex_clock 11 store0)) \<noteq> nodes (kill ex_clock 11 store0)
   \<and> map_option time_of_death (get_node 11 (kill ex_clock 11 store0)) = Some (Some 1000)
   \<and> map_option time_of_death (get_node 11 (kill ex_clock 11 (kill ex_clock 11 store0))) = Some (Some 1001)
   \<and> map_option status (get_node 11 (fail ex_clock 11 (kill ex_clock 11 store0))) = Some failed"
proof -
  have g: "get_node 11 store0 = Some node_A1"
    by (simp add: get_node_def store0_def node_A1_def)
  have c: "clock_reads store0 = 0" by (simp add: store0_def)
  have n: "nodes store0 = [node_A1, node_A2, node_S]" by (simp add: store0_def)
  have "nodes (kill ex_clock 11 (kill ex_clock 11 store0)) \<noteq> nodes (kill ex_clock 11 store0)"
    by (simp add: nodes_kill clock_reads_kill c n node_A1_def ex_clock_def)
  moreover have "map_option time_of_death (get_node 11 (kill ex_clock 11 store0)) = Some (Some 1000)"
    by (simp add: get_node_kill g c ex_clock_def)
  moreover have "map_option time_of_death (get_node 11 (kill ex_clock 11 (kill ex_clock 11 store0)))
      = Some (Some 1001)"
    by (simp add: get_node_kill clock_reads_kill g c ex_clock_def)
  moreover have "map_option status (get_node 11 (fail ex_clock 11 (kill ex_clock 11 store0))) = Some failed"
    by (simp add: get_node_kill get_node_fail g)
  ultimately show ?thesis by blast
qed

text \<open>What the two methods compute in general: each overwrites the status and the time of
  death, whatever they were.\<close>

lemma kill_fail_unguarded:
  assumes "get_node u s = Some n"
  shows "get_node u (kill clk u s) =
           Some (n\<lparr>status := dead, time_of_death := Some (clk (clock_reads s))\<rparr>)
       \<and> get_node u (kill clk u (kill clk u s)) =
           Some (n\<lparr>status := dead, time_of_death := Some (clk (Suc (clock_reads s)))\<rparr>)
       \<and> get_node u (fail clk u (kill clk u s)) =
           Some (n\<lparr>status := failed, time_of_death := Some (clk (Suc (clock_reads s)))\<rparr>)"
  using assms by (simp add: get_node_kill get_node_fail clock_reads_kill)

lemma kill_fail_unguarded_example:
  "get_node 11 store0 = Some node_A1
   \<and> get_node 11 (kill ex_clock 11 store0) =
       Some (node_A1\<lparr>status := dead, time_of_death := Some 1000\<rparr>)
   \<and> get_node 11 (kill ex_clock 11 (kill ex_clock 11 store0)) =
       Some (node_A1\<lparr>status := dead, time_of_death := Some 1001\<rparr>)
   \<and> get_node 11 (fail ex_clock 11 (kill ex_clock 11 store0)) =
       Some (node_A1\<lparr>status := failed, time_of_death := Some 1001\<rparr>)"
proof -
  have h: "get_node 11 store0 = Some node_A1"
    by (simp add: get_node_def store0_def node_A1_def)
  have c: "clock_reads store0 = 0" by (simp add: store0_def)
  from kill_fail_unguarded [OF h, of ex_clock] h c show ?thesis
    by (simp add: ex_clock_def)
qed

section \<open>What killing and failing leave alone\<close>

lemma kill_frame_fields:
  "vectors (kill clk u s) = vectors s \<and> infos (kill clk u s) = infos s
   \<and> transmissions (kill clk u s) = transmissions s
   \<and> transformations (kill clk u s) = transformations s
   \<and> networks (kill clk u s) = networks s
   \<and> uuids_issued (kill clk u s) = uuids_issued s"
  by (simp add: kill_def update_node_def timenow_def)

lemma fail_frame_fields:
  "vectors (fail clk u s) = vectors s \<and> infos (fail clk u s) = infos s
   \<and> transmissions (fail clk u s) = transmissions s
   \<and> transformations (fail clk u s) = transformations s
   \<and> networks (fail clk u s) = networks s
   \<and> uuids_issued (fail clk u s) = uuids_issued s"
  by (simp add: fail_def update_node_def timenow_def)

text \<open>
  C10. \<^verbatim>\<open>kill()\<close> and \<^verbatim>\<open>fail()\<close> on the node with key \<open>u\<close> change nothing but the
  status and the time of death of that node: the vector, info, transmission,
  transformation and network tables are as before (so the node's vectors keep their
  status and the Infos it authored are the same), the node table has the same rows in the
  same places, each with its key, class, creation time, network and participant as
  before, and every row of another node is untouched.
\<close>

theorem kill_fail_frame:
  "vectors (kill clk u s) = vectors s \<and> vectors (fail clk u s) = vectors s
   \<and> infos (kill clk u s) = infos s \<and> infos (fail clk u s) = infos s
   \<and> transmissions (kill clk u s) = transmissions s
   \<and> transmissions (fail clk u s) = transmissions s
   \<and> transformations (kill clk u s) = transformations s
   \<and> transformations (fail clk u s) = transformations s
   \<and> networks (kill clk u s) = networks s \<and> networks (fail clk u s) = networks s
   \<and> length (nodes (kill clk u s)) = length (nodes s)
   \<and> length (nodes (fail clk u s)) = length (nodes s)
   \<and> (\<forall>k < length (nodes s).
         same_but_status_and_death (nodes s ! k) (nodes (kill clk u s) ! k)
       \<and> same_but_status_and_death (nodes s ! k) (nodes (fail clk u s) ! k)
       \<and> (uuid (nodes s ! k) \<noteq> u \<longrightarrow>
            nodes (kill clk u s) ! k = nodes s ! k \<and> nodes (fail clk u s) ! k = nodes s ! k))"
  using kill_frame_fields [of clk u s] fail_frame_fields [of clk u s]
  by (simp add: nodes_kill nodes_fail same_but_status_and_death_def)

theorem kill_fail_frame_witness:
  "vectors (kill ex_clock 11 store0) = vectors store0
   \<and> infos (kill ex_clock 11 store0) = infos store0
   \<and> transmissions (fail ex_clock 11 store0) = transmissions store0
   \<and> nodes (kill ex_clock 11 store0) ! 1 = node_A2
   \<and> nodes (fail ex_clock 11 store0) ! 1 = node_A2
   \<and> network_uuid (nodes (kill ex_clock 11 store0) ! 0) = Some 10
   \<and> creation_time (nodes (kill ex_clock 11 store0) ! 0) = 10"
proof -
  have n: "nodes store0 = [node_A1, node_A2, node_S]" by (simp add: store0_def)
  have l: "(1::nat) < length (nodes store0)" "(0::nat) < length (nodes store0)"
    by (simp_all add: n)
  have u: "uuid (nodes store0 ! 1) \<noteq> 11" by (simp add: n node_A2_def)
  from kill_fail_frame [of ex_clock 11 store0] l u
  have a: "vectors (kill ex_clock 11 store0) = vectors store0"
    and b: "infos (kill ex_clock 11 store0) = infos store0"
    and c: "transmissions (fail ex_clock 11 store0) = transmissions store0"
    and d: "nodes (kill ex_clock 11 store0) ! 1 = nodes store0 ! 1"
    and e: "nodes (fail ex_clock 11 store0) ! 1 = nodes store0 ! 1"
    and f: "same_but_status_and_death (nodes store0 ! 0) (nodes (kill ex_clock 11 store0) ! 0)"
    by blast+
  from a b c d e f show ?thesis
    by (simp add: n same_but_status_and_death_def node_A1_def)
qed

section \<open>The retry loop of \<^verbatim>\<open>serialized\<close>\<close>

lemma serialized_loop_all_conflict:
  "\<forall>k. func k = Raise (OperationalError True) \<Longrightarrow> 0 \<le> attempts \<Longrightarrow>
   serialized_loop func attempts runs = (Inr None, runs + nat attempts)"
proof (induction func attempts runs rule: serialized_loop.induct)
  case (1 func attempts runs)
  show ?case
  proof (cases "attempts > 0")
    case True
    have f: "func runs = Raise (OperationalError True)" using "1.prems" by blast
    have "serialized_loop func attempts runs = serialized_loop func (attempts - 1) (Suc runs)"
      using True f by (subst serialized_loop.simps) simp
    also have "\<dots> = (Inr None, Suc runs + nat (attempts - 1))"
      using True f "1.prems" by (intro "1.IH") simp_all
    also have "Suc runs + nat (attempts - 1) = runs + nat attempts"
      using True by (simp add: nat_diff_distrib)
    finally show ?thesis .
  next
    case False
    with 1 have "attempts = 0" by simp
    then show ?thesis by (subst serialized_loop.simps) simp
  qed
qed

text \<open>
  C6. The claim holds for the bound and fails for the fatal error. When every run of the
  wrapped operation ends in a serialization conflict, the wrapper runs it 100 times, then
  leaves the loop and returns \<^verbatim>\<open>None\<close>: the test \<^verbatim>\<open>attempts > 0\<close> inside the handler
  repeats the loop condition, so its \<^verbatim>\<open>else\<close> branch, the only place that raises
  \<^verbatim>\<open>'Could not commit serialized transaction after 100 attempts.'\<close>, is never reached.
\<close>

theorem serialized_all_conflicts_returns_None:
  "serialized always_conflict = (Inr None, 100)"
  unfolding serialized_def
  using serialized_loop_all_conflict [of always_conflict 100 0]
  by (simp add: always_conflict_def)

text \<open>The budget itself holds for every operation: the loop never makes more runs than
  the attempts it starts with.\<close>

lemma serialized_loop_runs:
  "0 \<le> attempts \<Longrightarrow> snd (serialized_loop func attempts runs) \<le> runs + nat attempts"
proof (induction func attempts runs rule: serialized_loop.induct)
  case (1 func attempts runs)
  show ?case
  proof (cases "attempts > 0")
    case True
    show ?thesis
    proof (cases "func runs = Raise (OperationalError True)")
      case c: True
      have "serialized_loop func attempts runs = serialized_loop func (attempts - 1) (Suc runs)"
        using True c by (subst serialized_loop.simps) simp
      moreover have "snd (serialized_loop func (attempts - 1) (Suc runs)) \<le> Suc runs + nat (attempts - 1)"
        using True c by (intro "1.IH") simp_all
      moreover have "Suc runs + nat (attempts - 1) = runs + nat attempts"
        using True by (simp add: nat_diff_distrib)
      ultimately show ?thesis by simp
    next
      case False
      then have "snd (serialized_loop func attempts runs) = Suc runs"
        using True
        by (subst serialized_loop.simps)
           (auto split: attempt.splits db_exception.splits bool.splits)
      then show ?thesis using True by simp
    qed
  next
    case False
    then show ?thesis by (subst serialized_loop.simps) simp
  qed
qed

text \<open>The wrapper never raises its own fatal exception: the loop ends in it only if the
  wrapped operation raised that very exception.\<close>

lemma serialized_loop_never_fatal:
  "fst (serialized_loop func attempts runs)
     \<noteq> Inl (Exception ''Could not commit serialized transaction after 100 attempts.'')
   \<or> (\<exists>k. func k = Raise (Exception ''Could not commit serialized transaction after 100 attempts.''))"
proof (induction func attempts runs rule: serialized_loop.induct)
  case (1 func attempts runs)
  show ?case
  proof (cases "attempts > 0")
    case True
    show ?thesis
    proof (cases "func runs = Raise (OperationalError True)")
      case c: True
      have "serialized_loop func attempts runs = serialized_loop func (attempts - 1) (Suc runs)"
        using True c by (subst serialized_loop.simps) simp
      with 1 True c show ?thesis by auto
    next
      case False
      then show ?thesis using True
        by (subst serialized_loop.simps)
           (auto split: attempt.splits db_exception.splits bool.splits)
    qed
  next
    case False
    then show ?thesis by (subst serialized_loop.simps) simp
  qed
qed

section \<open>\<^verbatim>\<open>Network.sources\<close> and \<^verbatim>\<open>Network.agents\<close>\<close>

text \<open>
  C7, as stated, fails: a source of status \<^verbatim>\<open>failed\<close> is a member of \<^verbatim>\<open>N.sources\<close>.
\<close>

theorem sources_include_failed_counterexample:
  "sources 10 store_sources = [source_failed, source_dead, source_alive]
   \<and> status source_failed = failed"
  by (simp add: sources_def store_sources_def isinstance_def source_alive_def source_dead_def
        source_failed_def node_A1_def)

lemma not_failed_not_dead: "(s \<noteq> failed \<and> s \<noteq> dead) = (s = alive)"
  by (cases s) simp_all

text \<open>
  C7, amended. For every Network \<open>N\<close>, \<^verbatim>\<open>N.sources\<close> returns all member nodes of role
  Source ordered by creation time, whatever their status: failed and dead sources are
  included. Only \<^verbatim>\<open>N.agents\<close> looks at the status: it returns the member nodes of role
  Agent that are alive (neither failed nor dead), ordered by creation time.
\<close>

theorem sources_ignore_status:
  "mset (sources N s) =
     mset (filter (\<lambda>n. ntype n = generic_source \<and> network_uuid n = Some N) (nodes s))
   \<and> sorted (map creation_time (sources N s))
   \<and> mset (agents N s) =
       mset (filter (\<lambda>n. ntype n = agent \<and> network_uuid n = Some N \<and> status n = alive) (nodes s))
   \<and> sorted (map creation_time (agents N s))"
proof -
  have "filter (\<lambda>n. network_uuid n = Some N) (filter (\<lambda>n. isinstance n generic_source) (nodes s))
      = filter (\<lambda>n. ntype n = generic_source \<and> network_uuid n = Some N) (nodes s)"
    by (simp add: isinstance_def)
  moreover have "filter (\<lambda>n. status n \<noteq> dead)
          (filter (\<lambda>n. network_uuid n = Some N)
             (filter (\<lambda>n. status n \<noteq> failed)
                (filter (\<lambda>n. isinstance n agent) (nodes s))))
      = filter (\<lambda>n. ntype n = agent \<and> network_uuid n = Some N \<and> status n = alive) (nodes s)"
    using not_failed_not_dead by (auto simp: isinstance_def intro!: filter_cong)
  ultimately show ?thesis
    by (simp add: sources_def agents_def)
qed

theorem sources_ignore_status_witness:
  "mset (sources 10 store_sources) = {#source_alive, source_dead, source_failed#}
   \<and> sorted (map creation_time (sources 10 store_sources))
   \<and> mset (agents 10 store_sources) = {#node_A1#}"
proof -
  have n: "nodes store_sources = [source_alive, node_A1, source_dead, source_failed]"
    by (simp add: store_sources_def)
  from sources_ignore_status [of 10 store_sources] show ?thesis
    by (simp add: n source_alive_def source_dead_def source_failed_def node_A1_def)
qed

section \<open>The deprecated accessors\<close>

lemma connect_to_eq:
  "connect_to self other_node s =
     (new_vector (uuids_issued s) self other_node,
      s\<lparr>uuids_issued := Suc (uuids_issued s),
        vectors := vectors s @ [new_vector (uuids_issued s) self other_node],
        outgoing_vectors := (outgoing_vectors s)
          (self := outgoing_vectors s self @
             [new_vector (uuids_issued s) self other_node,
              new_vector (uuids_issued s) self other_node]),
        incoming_vectors := (incoming_vectors s)
          (other_node := incoming_vectors s other_node @
             [new_vector (uuids_issued s) self other_node])\<rparr>)"
  by (simp add: connect_to_def Vector_init_def new_uuid_def new_vector_def Let_def)

lemma store_connected_rows:
  "nodes store_connected = [node_A1, node_A2, node_S]
   \<and> vectors store_connected = [new_vector 100 11 12]
   \<and> infos store_connected = [info_x]
   \<and> transmissions store_connected = []"
  by (simp add: store_connected_def connect_to_eq store0_def)

text \<open>
  C9. After \<^verbatim>\<open>A1.connect_to(A2)\<close> in the example store, \<^verbatim>\<open>A1.successors2\<close> and
  \<^verbatim>\<open>A2.predecessors2\<close> raise \<^verbatim>\<open>NameError\<close>, where the bodies left in the comments and
  \<^verbatim>\<open>A1.downstream_nodes\<close> give \<open>[A2]\<close> and \<open>[A1]\<close>; and \<^verbatim>\<open>A2.upstream_nodes\<close> is
  \<open>[A2]\<close>, the destination of the incoming vector, not its origin \<open>A1\<close>.
\<close>

theorem deprecated_accessors_raise:
  "successors2 11 store_connected = Inl (NameError ''downstream_nodes'')
   \<and> successors2_commented 11 store_connected = [node_A2]
   \<and> downstream_nodes 11 None store_connected = [node_A2]
   \<and> predecessors2 12 store_connected = Inl (NameError ''upstream_nodes'')
   \<and> predecessors2_commented 12 store_connected = [node_A1]
   \<and> upstream_nodes 12 None store_connected = [node_A2]"
  by (simp add: successors2_def predecessors2_def successors2_commented_def
        predecessors2_commented_def downstream_nodes_def upstream_nodes_def
        store_connected_rows new_vector_def get_node_def isinstance_def List.map_filter_def
        node_A1_def node_A2_def node_S_def)

section \<open>\<^verbatim>\<open>transmit\<close> to a node\<close>

lemma transmit_to_node_raises:
  "info_origin_uuid i = self \<Longrightarrow>
   transmit clk self (WInfo i) (TNode n) s = (Some (NameError ''downstream_nodes''), s)"
  by (simp add: has_connection_to_def successors2_def)

text \<open>
  C3. \<^verbatim>\<open>A1.transmit(what=i, to_whom=A2)\<close>, with \<open>i\<close> authored by \<^verbatim>\<open>A1\<close>, raises
  \<^verbatim>\<open>NameError\<close> while \<^verbatim>\<open>A1\<close> has no vector to \<^verbatim>\<open>A2\<close>, and raises the same
  \<^verbatim>\<open>NameError\<close> after \<^verbatim>\<open>A1.connect_to(A2)\<close> has created the vector: no transmission is
  created. The exception comes from \<^verbatim>\<open>has_connection_to\<close>, which reads
  \<^verbatim>\<open>self.successors2\<close>.
\<close>

theorem transmit_to_connected_node_raises:
  "transmit ex_clock 11 (WInfo info_x) (TNode node_A2) store0
     = (Some (NameError ''downstream_nodes''), store0)
   \<and> vectors store_connected = vectors store0 @ [fst (connect_to 11 12 store0)]
   \<and> origin_uuid (fst (connect_to 11 12 store0)) = 11
   \<and> destination_uuid (fst (connect_to 11 12 store0)) = 12
   \<and> transmit ex_clock 11 (WInfo info_x) (TNode node_A2) store_connected
     = (Some (NameError ''downstream_nodes''), store_connected)
   \<and> transmissions store_connected = []"
proof -
  have o: "info_origin_uuid info_x = 11" by (simp add: info_x_def)
  have "vectors store_connected = vectors store0 @ [fst (connect_to 11 12 store0)]"
    by (simp add: store_connected_def connect_to_eq)
  moreover have "origin_uuid (fst (connect_to 11 12 store0)) = 11"
    "destination_uuid (fst (connect_to 11 12 store0)) = 12"
    by (simp_all add: connect_to_eq new_vector_def)
  moreover have "transmissions store_connected = []"
    by (simp add: store_connected_rows)
  ultimately show ?thesis
    using transmit_to_node_raises [OF o] by simp
qed

section \<open>\<^verbatim>\<open>transmit\<close> when nothing is resolved\<close>

lemma successors_rows:
  "nodes (snd (successors self s)) = nodes s \<and> vectors (snd (successors self s)) = vectors s
   \<and> infos (snd (successors self s)) = infos s
   \<and> transmissions (snd (successors self s)) = transmissions s
   \<and> transformations (snd (successors self s)) = transformations s
   \<and> networks (snd (successors self s)) = networks s"
  by (simp add: successors_def Let_def split: option.splits)

lemma successors_again:
  "successors self (snd (successors self s)) = (fst (successors self s), snd (successors self s))"
  by (simp add: successors_def Let_def get_node_def split: option.splits)

lemma whom_resolves_empty_cong:
  "fst (successors self s') = fst (successors self s) \<Longrightarrow>
   whom_resolves_empty self s' t = whom_resolves_empty self s t"
  by (induction t) simp_all

lemma what_resolves_empty_cong:
  "infos s' = infos s \<Longrightarrow> what_resolves_empty self s' w = what_resolves_empty self s w"
  by (induction w) simp_all

lemma transmit_what_empty:
  "what_resolves_empty self s what \<Longrightarrow> transmit clk self what to_whom s = (None, s)"
proof (induction clk self what to_whom s rule: transmit.induct)
  case (1 clk self to_whom s)
  then show ?case by (simp add: what_hook_def)
next
  case (2 clk self to_whom s)
  show ?case by simp
next
  case (3 clk self w ws to_whom s)
  from "3.prems" have w: "what_resolves_empty self s w"
    and ws: "what_resolves_empty self s (WList ws)" by simp_all
  have a: "transmit clk self w to_whom s = (None, s)" by (rule "3.IH"(1) [OF w])
  have "transmit clk self (WList ws) to_whom s = (None, s)"
    by (rule "3.IH"(2) [OF a [symmetric] refl ws])
  with a show ?case by simp
next
  case (4 clk self to_whom s)
  then show ?case by simp
next
  case (5 clk self what to_whom s)
  then show ?case by simp
next
  case (6 clk self to_whom s)
  then show ?case by simp
qed

lemma loaded_or_same_fst:
  "loaded_or_same self s s' \<Longrightarrow> fst (successors self s') = fst (successors self s)"
  by (auto simp: loaded_or_same_def successors_again)

lemma loaded_or_same_trans:
  "loaded_or_same self s s1 \<Longrightarrow> loaded_or_same self s1 s2 \<Longrightarrow> loaded_or_same self s s2"
  by (auto simp: loaded_or_same_def successors_again)

lemma transmit_whom_empty:
  "owned_content self what \<Longrightarrow> whom_resolves_empty self s to_whom \<Longrightarrow>
   \<exists>s'. transmit clk self what to_whom s = (None, s') \<and> loaded_or_same self s s'"
proof (induction clk self what to_whom s rule: transmit.induct)
  case (1 clk self to_whom s)
  then show ?case by (simp add: what_hook_def)
next
  case (2 clk self to_whom s)
  show ?case by (simp add: loaded_or_same_def)
next
  case (3 clk self w ws to_whom s)
  from "3.prems" have w: "owned_content self w" and ws: "owned_content self (WList ws)"
    by simp_all
  from "3.IH"(1) [OF w "3.prems"(2)] obtain s1
    where a: "transmit clk self w to_whom s = (None, s1)" and l1: "loaded_or_same self s s1"
    by blast
  have e1: "whom_resolves_empty self s1 to_whom"
    using "3.prems"(2) whom_resolves_empty_cong [OF loaded_or_same_fst [OF l1]] by simp
  from "3.IH"(2) [OF a [symmetric] refl ws e1] obtain s2
    where b: "transmit clk self (WList ws) to_whom s1 = (None, s2)"
      and l2: "loaded_or_same self s1 s2"
    by blast
  from a b loaded_or_same_trans [OF l1 l2] show ?case by simp
next
  case (4 clk self to_whom s)
  have "owned_content self
          (WList (map WInfo (rev (sort_key info_creation_time
                                    (filter (\<lambda>i. info_origin_uuid i = self) (infos s))))))"
    by auto
  from "4.IH" [OF refl this "4.prems"(2)] show ?case by simp
next
  case (5 clk self what to_whom s)
  from "5.prems" have o: "info_origin_uuid what = self" by simp
  show ?case
  proof (cases to_whom)
    case TNone
    have h: "to_whom_hook self = TClass base" by (simp add: to_whom_hook_def)
    have e: "whom_resolves_empty self s (to_whom_hook self)"
      using "5.prems"(2) TNone by (simp add: h)
    have "\<exists>s'. transmit clk self (WInfo what) (to_whom_hook self) s = (None, s')
            \<and> loaded_or_same self s s'"
      by (rule "5.IH"(1) [OF _ TNone refl _ "5.prems"(1) e]) (simp_all add: o h)
    then show ?thesis using o TNone by (simp add: h)
  next
    case (TList ts)
    show ?thesis
    proof (cases ts)
      case Nil
      with TList o show ?thesis by (simp add: loaded_or_same_def)
    next
      case (Cons t ts')
      from "5.prems"(2) TList Cons have et: "whom_resolves_empty self s t"
        and ets: "whom_resolves_empty self s (TList ts')" by simp_all
      have "\<exists>s1. transmit clk self (WInfo what) t s = (None, s1) \<and> loaded_or_same self s s1"
        by (rule "5.IH"(2) [OF _ TList Cons "5.prems"(1) et]) (simp add: o)
      then obtain s1 where a: "transmit clk self (WInfo what) t s = (None, s1)"
        and l1: "loaded_or_same self s s1" by blast
      have e1: "whom_resolves_empty self s1 (TList ts')"
        using ets whom_resolves_empty_cong [OF loaded_or_same_fst [OF l1]] by simp
      have "\<exists>s2. transmit clk self (WInfo what) (TList ts') s1 = (None, s2)
              \<and> loaded_or_same self s1 s2"
        by (rule "5.IH"(3) [OF _ TList Cons a [symmetric] refl "5.prems"(1) e1]) (simp add: o)
      then obtain s2 where b: "transmit clk self (WInfo what) (TList ts') s1 = (None, s2)"
        and l2: "loaded_or_same self s1 s2" by blast
      from a b loaded_or_same_trans [OF l1 l2] o TList Cons show ?thesis by simp
    qed
  next
    case (TClass c)
    from "5.prems"(2) TClass have "filter (\<lambda>w. isinstance w c) (fst (successors self s)) = []"
      by simp
    with o TClass show ?thesis
      by (simp add: split_def loaded_or_same_def)
  next
    case (TNode n)
    with "5.prems" show ?thesis by simp
  next
    case TOther
    with "5.prems" show ?thesis by simp
  qed
next
  case (6 clk self to_whom s)
  then show ?case by simp
qed

text \<open>
  C2, as stated, fails: for a node that authored no Info, \<^verbatim>\<open>transmit()\<close> raises nothing
  and leaves the store as it was, and for a node without successors \<^verbatim>\<open>transmit(what=i)\<close>
  raises nothing and creates no transmission.
\<close>

theorem transmit_empty_resolution_counterexample:
  "transmit ex_clock 11 WNone TNone store_quiet = (None, store_quiet)
   \<and> fst (transmit ex_clock 11 (WInfo info_x) TNone store0) = None
   \<and> transmissions (snd (transmit ex_clock 11 (WInfo info_x) TNone store0)) = []"
proof -
  have a: "what_resolves_empty 11 store_quiet WNone" by (simp add: store_quiet_def)
  have b: "owned_content 11 (WInfo info_x)" by (simp add: info_x_def)
  have c: "whom_resolves_empty 11 store0 TNone"
    by (simp add: successors_def successors_query_def unique_list_def store0_def
          List.map_filter_def)
  from transmit_whom_empty [OF b c, of ex_clock] obtain s'
    where t: "transmit ex_clock 11 (WInfo info_x) TNone store0 = (None, s')"
      and l: "loaded_or_same 11 store0 s'" by blast
  from l have "transmissions s' = transmissions store0"
    by (auto simp: loaded_or_same_def successors_rows)
  then have "transmissions s' = []" by (simp add: store0_def)
  with t transmit_what_empty [OF a, of ex_clock TNone] show ?thesis by simp
qed

text \<open>
  C2, amended. For every call \<^verbatim>\<open>node.transmit(what, to_whom)\<close>:
  \<^item> if the content resolves to nothing (\<open>what\<close> is \<^verbatim>\<open>None\<close> or the class \<^verbatim>\<open>Info\<close>
    and the node authored no Info, or \<open>what\<close> is a list, the empty one included, of
    arguments that all resolve to nothing), the call raises no error and leaves the store
    as it was, whatever \<open>to_whom\<close> is;
  \<^item> if \<open>what\<close> is \<^verbatim>\<open>None\<close>, the class \<^verbatim>\<open>Info\<close>, an Info the node authored or a list
    of these, and the recipients resolve to nothing (\<open>to_whom\<close> is \<^verbatim>\<open>None\<close> or a node
    class and \<^verbatim>\<open>node.successors\<close> holds no node of that class, or \<open>to_whom\<close> is a list,
    the empty one included, of arguments that all resolve to nothing), the call raises no
    error, creates zero Transmissions and changes no row of any table: the store is as it
    was, or as it is once \<^verbatim>\<open>node.successors\<close> has been read.
\<close>

theorem transmit_empty_resolution:
  "(what_resolves_empty self s what \<longrightarrow> transmit clk self what to_whom s = (None, s))
   \<and> (owned_content self what \<and> whom_resolves_empty self s to_whom \<longrightarrow>
        (\<exists>s'. transmit clk self what to_whom s = (None, s')
              \<and> (s' = s \<or> s' = snd (successors self s))
              \<and> same_rows s s'))"
proof (intro conjI impI)
  assume "what_resolves_empty self s what"
  then show "transmit clk self what to_whom s = (None, s)" by (rule transmit_what_empty)
next
  assume "owned_content self what \<and> whom_resolves_empty self s to_whom"
  then obtain s' where t: "transmit clk self what to_whom s = (None, s')"
    and l: "loaded_or_same self s s'"
    using transmit_whom_empty by blast
  from l have "same_rows s s'"
    by (auto simp: loaded_or_same_def same_rows_def successors_rows)
  with t l show "\<exists>s'. transmit clk self what to_whom s = (None, s')
              \<and> (s' = s \<or> s' = snd (successors self s)) \<and> same_rows s s'"
    by (auto simp: loaded_or_same_def)
qed

theorem transmit_empty_resolution_witness:
  "what_resolves_empty 11 store_quiet (WList [WNone, WInfoClass])
   \<and> transmit ex_clock 11 (WList [WNone, WInfoClass]) (TNode node_A2) store_quiet
       = (None, store_quiet)
   \<and> owned_content 11 (WList [WInfo info_x, WNone])
   \<and> whom_resolves_empty 11 store0 (TList [TNone, TClass agent])
   \<and> fst (transmit ex_clock 11 (WList [WInfo info_x, WNone]) (TList [TNone, TClass agent]) store0)
       = None
   \<and> transmissions
        (snd (transmit ex_clock 11 (WList [WInfo info_x, WNone]) (TList [TNone, TClass agent]) store0))
       = []"
proof -
  have a: "what_resolves_empty 11 store_quiet (WList [WNone, WInfoClass])"
    by (simp add: store_quiet_def)
  have b: "owned_content 11 (WList [WInfo info_x, WNone])" by (simp add: info_x_def)
  have c: "whom_resolves_empty 11 store0 (TList [TNone, TClass agent])"
    by (simp add: successors_def successors_query_def unique_list_def store0_def
          List.map_filter_def)
  have d: "transmissions store0 = []" by (simp add: store0_def)
  from transmit_empty_resolution
         [of 11 store_quiet "WList [WNone, WInfoClass]" ex_clock "TNode node_A2"] a
  have e: "transmit ex_clock 11 (WList [WNone, WInfoClass]) (TNode node_A2) store_quiet
             = (None, store_quiet)" by blast
  from transmit_empty_resolution
         [of 11 store0 "WList [WInfo info_x, WNone]" ex_clock "TList [TNone, TClass agent]"] b c
  obtain s' where t: "transmit ex_clock 11 (WList [WInfo info_x, WNone])
                        (TList [TNone, TClass agent]) store0 = (None, s')"
    and r: "same_rows store0 s'" by blast
  from r d have "transmissions s' = []" by (simp add: same_rows_def)
  with a b c e t show ?thesis by simp
qed

section \<open>\<^verbatim>\<open>Network.add_source_global\<close>\<close>

lemma add_source_global_two:
  assumes "agents N s = [a1, a2]"
  shows "fst (add_source_global N src s) =
           [new_vector (uuids_issued s) src (uuid a1), new_vector (Suc (uuids_issued s)) src (uuid a2)]"
    and "vectors (snd (add_source_global N src s)) =
           vectors s @ [new_vector (uuids_issued s) src (uuid a1),
                        new_vector (Suc (uuids_issued s)) src (uuid a2)]"
    and "nodes (snd (add_source_global N src s)) =
           map (\<lambda>n. if uuid n = src then n\<lparr>network_uuid := Some N\<rparr> else n) (nodes s)"
    and "k \<noteq> src \<Longrightarrow> outgoing_vectors (snd (add_source_global N src s)) k = outgoing_vectors s k"
proof -
  have m: "map (\<lambda>n. if uuid n = src then n\<lparr>network_uuid := Some N\<rparr> else n)
             (map (\<lambda>n. if uuid n = src then n\<lparr>network_uuid := Some N\<rparr> else n) xs)
           = map (\<lambda>n. if uuid n = src then n\<lparr>network_uuid := Some N\<rparr> else n) xs" for xs
    by (induction xs) auto
  show "fst (add_source_global N src s) =
           [new_vector (uuids_issued s) src (uuid a1), new_vector (Suc (uuids_issued s)) src (uuid a2)]"
    by (simp add: add_source_global_def assms connect_to_eq)
  show "vectors (snd (add_source_global N src s)) =
           vectors s @ [new_vector (uuids_issued s) src (uuid a1),
                        new_vector (Suc (uuids_issued s)) src (uuid a2)]"
    by (simp add: add_source_global_def assms connect_to_eq set_network_def
          set_vector_network_def update_node_def new_vector_def)
  show "nodes (snd (add_source_global N src s)) =
           map (\<lambda>n. if uuid n = src then n\<lparr>network_uuid := Some N\<rparr> else n) (nodes s)"
    by (simp add: add_source_global_def assms connect_to_eq set_network_def
          set_vector_network_def update_node_def new_vector_def m)
  show "outgoing_vectors (snd (add_source_global N src s)) k = outgoing_vectors s k" if "k \<noteq> src"
    using that
    by (simp add: add_source_global_def assms connect_to_eq set_network_def
          set_vector_network_def update_node_def new_vector_def)
qed

lemma agents_after_set_network:
  assumes "\<forall>n\<in>set (nodes s). uuid n = src \<longrightarrow> ntype n \<noteq> agent"
      and "nodes s' = map (\<lambda>n. if uuid n = src then n\<lparr>network_uuid := Some N'\<rparr> else n) (nodes s)"
  shows "agents N s' = agents N s"
proof -
  have "filter (\<lambda>n. isinstance n agent)
          (map (\<lambda>n. if uuid n = src then n\<lparr>network_uuid := Some N'\<rparr> else n) xs)
        = filter (\<lambda>n. isinstance n agent) xs"
    if "\<forall>n\<in>set xs. uuid n = src \<longrightarrow> ntype n \<noteq> agent" for xs
    using that by (induction xs) (auto simp: isinstance_def)
  with assms show ?thesis by (simp add: agents_def)
qed

lemma agents_are_agent_rows:
  "a \<in> set (agents N s) \<Longrightarrow> a \<in> set (nodes s) \<and> ntype a = agent"
  by (auto simp: agents_def isinstance_def)

lemma add_source_global_degrees:
  assumes "agents N s = [a1, a2]"
      and "\<forall>n\<in>set (nodes s). uuid n = src \<longrightarrow> ntype n \<noteq> agent"
  shows "agents N (snd (add_source_global N src s)) = [a1, a2]"
    and "get_degrees N (snd (add_source_global N src s)) = get_degrees N s"
    and "get_degrees N s = [outdegree (uuid a1) s, outdegree (uuid a2) s]"
proof -
  have "a1 \<in> set (agents N s)" "a2 \<in> set (agents N s)" by (simp_all add: assms(1))
  then have u: "uuid a1 \<noteq> src" "uuid a2 \<noteq> src"
    using agents_are_agent_rows assms(2) by blast+
  show a: "agents N (snd (add_source_global N src s)) = [a1, a2]"
    using agents_after_set_network [OF assms(2) add_source_global_two(3) [OF assms(1)]]
    by (simp add: assms(1))
  show "get_degrees N s = [outdegree (uuid a1) s, outdegree (uuid a2) s]"
    by (simp add: get_degrees_def assms(1))
  show "get_degrees N (snd (add_source_global N src s)) = get_degrees N s"
    using u by (simp add: get_degrees_def a assms(1) outdegree_def
        add_source_global_two(4) [OF assms(1)])
qed

text \<open>
  C8, as stated, fails: in the example store, whose network 10 holds exactly the agents
  \<^verbatim>\<open>A1\<close> and \<^verbatim>\<open>A2\<close> and no vector, \<^verbatim>\<open>add_source_global(S)\<close> returns two vectors and
  \<^verbatim>\<open>get_degrees()\<close> is \<open>[0, 0]\<close> afterwards.
\<close>

theorem add_source_global_degrees_counterexample:
  "agents 10 store0 = [node_A1, node_A2]
   \<and> length (fst (add_source_global 10 13 store0)) = 2
   \<and> get_degrees 10 (snd (add_source_global 10 13 store0)) = [0, 0]"
proof -
  have a: "agents 10 store0 = [node_A1, node_A2]"
    by (simp add: agents_def store0_def isinstance_def node_A1_def node_A2_def node_S_def)
  have n: "\<forall>n\<in>set (nodes store0). uuid n = 13 \<longrightarrow> ntype n \<noteq> agent"
    by (simp add: store0_def node_A1_def node_A2_def node_S_def)
  have o: "outdegree (uuid node_A1) store0 = 0" "outdegree (uuid node_A2) store0 = 0"
    by (simp_all add: outdegree_def store0_def)
  show ?thesis
    using add_source_global_degrees [OF a n] add_source_global_two(1) [OF a, of 13] a o
    by simp
qed

text \<open>
  C8, amended. For a Network \<open>N\<close> whose agents are exactly \<open>A1\<close> and \<open>A2\<close> and a
  Source \<open>S\<close>, \<^verbatim>\<open>add_source_global(S)\<close> creates and returns exactly two Vectors, from
  \<open>S\<close> to \<open>A1\<close> and from \<open>S\<close> to \<open>A2\<close>; afterwards the agents of \<open>N\<close> are still
  \<open>A1\<close> and \<open>A2\<close> and \<^verbatim>\<open>N.get_degrees()\<close> is what it was before the call, the
  outdegrees of \<open>A1\<close> and \<open>A2\<close>.
\<close>

theorem add_source_global_two_agents:
  assumes "agents N s = [a1, a2]"
      and "\<forall>n\<in>set (nodes s). uuid n = src \<longrightarrow> ntype n = generic_source"
  shows "fst (add_source_global N src s) =
           [\<lparr>vector_uuid = uuids_issued s, origin_uuid = src, destination_uuid = uuid a1,
              vector_status = vector_alive, vector_time_of_death = None\<rparr>,
            \<lparr>vector_uuid = Suc (uuids_issued s), origin_uuid = src, destination_uuid = uuid a2,
              vector_status = vector_alive, vector_time_of_death = None\<rparr>]
       \<and> vectors (snd (add_source_global N src s)) = vectors s @ fst (add_source_global N src s)
       \<and> agents N (snd (add_source_global N src s)) = [a1, a2]
       \<and> get_degrees N (snd (add_source_global N src s)) = get_degrees N s
       \<and> get_degrees N s = [outdegree (uuid a1) s, outdegree (uuid a2) s]"
proof -
  have n: "\<forall>n\<in>set (nodes s). uuid n = src \<longrightarrow> ntype n \<noteq> agent"
    using assms(2) by auto
  show ?thesis
    using add_source_global_degrees [OF assms(1) n] add_source_global_two(1,2) [OF assms(1), of src]
    by (simp add: new_vector_def)
qed

theorem add_source_global_two_agents_witness:
  "agents 10 store_connected = [node_A1, node_A2]
   \<and> map destination_uuid (fst (add_source_global 10 13 store_connected)) = [11, 12]
   \<and> map origin_uuid (fst (add_source_global 10 13 store_connected)) = [13, 13]
   \<and> get_degrees 10 (snd (add_source_global 10 13 store_connected)) = [2, 0]
   \<and> get_degrees 10 store_connected = [2, 0]"
proof -
  have a: "agents 10 store_connected = [node_A1, node_A2]"
    by (simp add: agents_def store_connected_rows isinstance_def node_A1_def node_A2_def
          node_S_def)
  have n: "\<forall>n\<in>set (nodes store_connected). uuid n = 13 \<longrightarrow> ntype n = generic_source"
    by (simp add: store_connected_rows node_A1_def node_A2_def node_S_def)
  have o: "outdegree 11 store_connected = 2" "outdegree 12 store_connected = 0"
    by (simp_all add: outdegree_def store_connected_def connect_to_eq store0_def)
  from add_source_global_two_agents [OF a n] a o show ?thesis
    by (simp add: node_A1_def node_A2_def)
qed

section \<open>\<^verbatim>\<open>receive_all\<close>\<close>

lemma receive_loop_eq:
  "receive_loop clk ts s =
     s\<lparr>clock_reads := clock_reads s + 2 * length ts,
       transmissions := map (stamped clk (clock_reads s) ts) (transmissions s)\<rparr>"
proof (induction ts arbitrary: s)
  case Nil
  have "map (stamped clk (clock_reads s) []) (transmissions s) = transmissions s"
    by (simp add: stamped_def map_idI)
  then show ?case by simp
next
  case (Cons t ts)
  let ?step = "\<lambda>x. if transmission_uuid x = transmission_uuid t
                     then x\<lparr>receive_time := Some (clk (Suc (clock_reads s)))\<rparr> else x"
  have one: "mark_received clk (transmission_uuid t)
               (set_receive_time (transmission_uuid t) (clk (clock_reads s))
                  (s\<lparr>clock_reads := Suc (clock_reads s)\<rparr>))
             = s\<lparr>clock_reads := clock_reads s + 2, transmissions := map ?step (transmissions s)\<rparr>"
    by (simp add: mark_received_def set_receive_time_def timenow_def comp_def if_distrib cong: if_cong)
  have pt: "stamped clk (Suc (Suc (clock_reads s))) ts \<circ> ?step = stamped clk (clock_reads s) (t # ts)"
    by (rule ext) (simp add: stamped_def split: option.splits)
  show ?case
    by (simp add: timenow_def one Cons.IH pt)
qed

lemma stamp_of_None: "stamp_of clk r ts u = None \<longleftrightarrow> u \<notin> transmission_uuid ` set ts"
proof (induction ts arbitrary: r)
  case Nil
  show ?case by simp
next
  case (Cons t ts)
  show ?case
    using Cons.IH [of "Suc (Suc r)"]
    by (cases "stamp_of clk (Suc (Suc r)) ts u") auto
qed

lemma stamp_of_nth:
  "distinct (map transmission_uuid ts) \<Longrightarrow> i < length ts \<Longrightarrow>
   stamp_of clk r ts (transmission_uuid (ts ! i)) = Some (clk (r + 2 * i + 1))"
proof (induction ts arbitrary: r i)
  case Nil
  then show ?case by simp
next
  case (Cons t ts)
  show ?case
  proof (cases i)
    case 0
    with Cons.prems have "stamp_of clk (Suc (Suc r)) ts (transmission_uuid t) = None"
      by (simp add: stamp_of_None)
    with 0 show ?thesis by simp
  next
    case (Suc j)
    with Cons.prems have "stamp_of clk (Suc (Suc r)) ts (transmission_uuid (ts ! j)) = Some (clk (Suc (Suc r) + 2 * j + 1))"
      by (intro Cons.IH) simp_all
    with Suc show ?thesis by simp
  qed
qed

lemma stamped_fields:
  "transmission_uuid (stamped clk r ts x) = transmission_uuid x"
  "transmission_destination_uuid (stamped clk r ts x) = transmission_destination_uuid x"
  "transmission_info_uuid (stamped clk r ts x) = transmission_info_uuid x"
  "transmit_time (stamped clk r ts x) = transmit_time x"
  by (simp_all add: stamped_def split: option.splits)

lemma find_by_uuid:
  "distinct (map transmission_uuid xs) \<Longrightarrow> y \<in> set xs \<Longrightarrow>
   find (\<lambda>x. transmission_uuid x = transmission_uuid y) xs = Some y"
  by (induction xs) (auto simp: image_iff)

lemma find_map_uuid:
  "(\<And>x. transmission_uuid (g x) = transmission_uuid x) \<Longrightarrow>
   find (\<lambda>x. transmission_uuid x = u) (map g xs) = map_option g (find (\<lambda>x. transmission_uuid x = u) xs)"
  by (induction xs) auto

lemma pending_set:
  "set (pending_transmissions self s) =
     {t \<in> set (transmissions s). transmission_destination_uuid t = self \<and> receive_time t = None}"
  by (auto simp: pending_transmissions_def)

lemma pending_distinct:
  "distinct (map transmission_uuid (transmissions s)) \<Longrightarrow>
   distinct (map transmission_uuid (pending_transmissions self s))"
proof -
  assume d: "distinct (map transmission_uuid (transmissions s))"
  let ?f = "filter (\<lambda>t. receive_time t = None)
              (filter (\<lambda>t. transmission_destination_uuid t = self) (transmissions s))"
  have "distinct (map transmission_uuid ?f)"
    using d by (simp add: distinct_map_filter)
  moreover have "mset (map transmission_uuid (sort_key transmit_time ?f)) = mset (map transmission_uuid ?f)"
    by simp
  ultimately show ?thesis
    unfolding pending_transmissions_def
    by (metis mset_eq_imp_distinct_iff)
qed

lemma pending_after_loop:
  "pending_transmissions self (receive_loop clk (pending_transmissions self s) s) = []"
proof -
  let ?p = "pending_transmissions self s"
  have "\<not> (transmission_destination_uuid (stamped clk r ?p x) = self
            \<and> receive_time (stamped clk r ?p x) = None)"
    if "x \<in> set (transmissions s)" for x r
  proof
    assume a: "transmission_destination_uuid (stamped clk r ?p x) = self
               \<and> receive_time (stamped clk r ?p x) = None"
    then have n: "stamp_of clk r ?p (transmission_uuid x) = None"
      by (auto simp: stamped_def split: option.splits)
    with a have "transmission_destination_uuid x = self" "receive_time x = None"
      by (simp_all add: stamped_def)
    with that have "x \<in> set ?p" by (simp add: pending_set)
    with n show False by (simp add: stamp_of_None)
  qed
  then have "filter (\<lambda>t. receive_time t = None)
          (filter (\<lambda>t. transmission_destination_uuid t = self)
             (map (stamped clk (clock_reads s) ?p) (transmissions s))) = []"
    by (auto simp: filter_empty_conv)
  then show ?thesis
    by (simp add: receive_loop_eq pending_transmissions_def [of self "_\<lparr>clock_reads := _, transmissions := _\<rparr>"]
          del: filter_filter)
qed

lemma receive_all_eq:
  "receive_all clk update self s =
     update self (map (\<lambda>t. get_info (transmission_info_uuid t) s) (pending_transmissions self s))
       (receive_loop clk (pending_transmissions self s) s)"
  by (simp add: receive_all_def Let_def get_info_def receive_loop_eq)

lemma pending_cong:
  "transmissions s1 = transmissions s2 \<Longrightarrow> pending_transmissions self s1 = pending_transmissions self s2"
  by (simp add: pending_transmissions_def)

lemma get_info_row:
  assumes "x \<in> set (infos s)" and "info_uuid x = k" and "distinct (map info_uuid (infos s))"
  shows "get_info k s = Some x"
proof -
  have "find (\<lambda>i. info_uuid i = info_uuid x) xs = Some x"
    if "x \<in> set xs" "distinct (map info_uuid xs)" for xs
    using that by (induction xs) (auto simp: image_iff)
  with assms show ?thesis by (auto simp: get_info_def)
qed

text \<open>
  C5. In a database that keeps its constraints (the keys of the transmission table and of
  the info table are unique, and every transmission refers to an Info row),
  \<^verbatim>\<open>n.receive_all()\<close> selects exactly the transmissions destined for \<open>n\<close> whose receive
  time is null, in transmit-time order; it stamps them in that order, the \<open>i\<close>-th with
  the second of the two clock readings of its turn, and leaves every other transmission
  as it was; then it calls \<^verbatim>\<open>update\<close> once, with a list as long as the selection whose
  \<open>i\<close>-th element is the one Info row that the \<open>i\<close>-th selected transmission refers to.
  After the call none of them is pending, so with an \<^verbatim>\<open>update\<close> that leaves the
  transmission table alone (as the \<^verbatim>\<open>update\<close> of every class of the file does) a second
  \<^verbatim>\<open>receive_all()\<close> passes the empty list to \<^verbatim>\<open>update\<close>: across the two calls every
  transmission is delivered once.
\<close>

theorem receive_all_delivers_once:
  assumes "distinct (map transmission_uuid (transmissions s))"
      and "distinct (map info_uuid (infos s))"
      and "\<forall>t\<in>set (transmissions s). \<exists>x\<in>set (infos s). info_uuid x = transmission_info_uuid t"
      and "\<forall>a xs st. transmissions (snd (update a xs st)) = transmissions st"
  shows "let pending = pending_transmissions self s;
             payload = map (\<lambda>t. get_info (transmission_info_uuid t) s) pending;
             s' = receive_loop clk pending s;
             s1 = snd (receive_all clk update self s)
         in mset pending =
              mset (filter (\<lambda>t. transmission_destination_uuid t = self \<and> receive_time t = None)
                      (transmissions s))
          \<and> sorted (map transmit_time pending)
          \<and> receive_all clk update self s = update self payload s'
          \<and> length payload = length pending
          \<and> (\<forall>i<length pending.
                \<exists>x\<in>set (infos s).
                  payload ! i = Some x
                  \<and> info_uuid x = transmission_info_uuid (pending ! i)
                  \<and> (\<forall>y\<in>set (infos s). info_uuid y = info_uuid x \<longrightarrow> y = x))
          \<and> (\<forall>i<length pending.
                find (\<lambda>x. transmission_uuid x = transmission_uuid (pending ! i)) (transmissions s')
                  = Some ((pending ! i)\<lparr>receive_time := Some (clk (clock_reads s + 2 * i + 1))\<rparr>))
          \<and> length (transmissions s') = length (transmissions s)
          \<and> (\<forall>k<length (transmissions s).
                \<not> (transmission_destination_uuid (transmissions s ! k) = self
                    \<and> receive_time (transmissions s ! k) = None)
                \<longrightarrow> transmissions s' ! k = transmissions s ! k)
          \<and> pending_transmissions self s1 = []
          \<and> receive_all clk update self s1 = update self [] s1"
proof -
  define pending where "pending = pending_transmissions self s"
  define payload where "payload = map (\<lambda>t. get_info (transmission_info_uuid t) s) pending"
  define s' where "s' = receive_loop clk pending s"
  define s1 where "s1 = snd (receive_all clk update self s)"
  have tr: "transmissions s' = map (stamped clk (clock_reads s) pending) (transmissions s)"
    by (simp add: s'_def receive_loop_eq)
  have dp: "distinct (map transmission_uuid pending)"
    unfolding pending_def by (rule pending_distinct [OF assms(1)])
  have c1: "mset pending =
              mset (filter (\<lambda>t. transmission_destination_uuid t = self \<and> receive_time t = None)
                      (transmissions s))"
    by (simp add: pending_def pending_transmissions_def conj_commute)
  have c2: "sorted (map transmit_time pending)"
    by (simp add: pending_def pending_transmissions_def)
  have c3: "receive_all clk update self s = update self payload s'"
    by (simp add: receive_all_eq pending_def s'_def payload_def)
  have cl: "length payload = length pending" by (simp add: payload_def)
  have cp: "\<exists>x\<in>set (infos s).
              payload ! i = Some x
              \<and> info_uuid x = transmission_info_uuid (pending ! i)
              \<and> (\<forall>y\<in>set (infos s). info_uuid y = info_uuid x \<longrightarrow> y = x)"
    if i: "i < length pending" for i
  proof -
    have "pending ! i \<in> set pending" using i by simp
    then have "pending ! i \<in> set (transmissions s)"
      by (simp add: pending_def pending_set)
    with assms(3) obtain x where x: "x \<in> set (infos s)"
      "info_uuid x = transmission_info_uuid (pending ! i)" by blast
    have "payload ! i = Some x"
      using i get_info_row [OF x assms(2)] by (simp add: payload_def)
    moreover have "\<forall>y\<in>set (infos s). info_uuid y = info_uuid x \<longrightarrow> y = x"
      using assms(2) x(1) by (meson distinct_map inj_onD)
    ultimately show ?thesis using x by blast
  qed
  have c4: "find (\<lambda>x. transmission_uuid x = transmission_uuid (pending ! i)) (transmissions s')
              = Some ((pending ! i)\<lparr>receive_time := Some (clk (clock_reads s + 2 * i + 1))\<rparr>)"
    if i: "i < length pending" for i
  proof -
    have "pending ! i \<in> set pending" using i by simp
    then have m: "pending ! i \<in> set (transmissions s)"
      by (simp add: pending_def pending_set)
    have "find (\<lambda>x. transmission_uuid x = transmission_uuid (pending ! i)) (transmissions s')
          = map_option (stamped clk (clock_reads s) pending)
              (find (\<lambda>x. transmission_uuid x = transmission_uuid (pending ! i)) (transmissions s))"
      unfolding tr by (rule find_map_uuid) (simp add: stamped_fields)
    also have "\<dots> = Some (stamped clk (clock_reads s) pending (pending ! i))"
      by (simp add: find_by_uuid [OF assms(1) m])
    also have "stamped clk (clock_reads s) pending (pending ! i)
               = (pending ! i)\<lparr>receive_time := Some (clk (clock_reads s + 2 * i + 1))\<rparr>"
      by (simp add: stamped_def stamp_of_nth [OF dp i])
    finally show ?thesis .
  qed
  have c5: "length (transmissions s') = length (transmissions s)"
    by (simp add: tr)
  have c6: "transmissions s' ! k = transmissions s ! k"
    if k: "k < length (transmissions s)"
      and np: "\<not> (transmission_destination_uuid (transmissions s ! k) = self
                  \<and> receive_time (transmissions s ! k) = None)" for k
  proof -
    let ?x = "transmissions s ! k"
    have "transmission_uuid ?x \<notin> transmission_uuid ` set pending"
    proof
      assume "transmission_uuid ?x \<in> transmission_uuid ` set pending"
      then obtain p where p: "p \<in> set pending" "transmission_uuid p = transmission_uuid ?x"
        by auto
      then have pm: "p \<in> set (transmissions s)"
        and pp: "transmission_destination_uuid p = self \<and> receive_time p = None"
        by (simp_all add: pending_def pending_set)
      have "?x \<in> set (transmissions s)" using k by simp
      with pm p(2) assms(1) have "p = ?x"
        by (meson distinct_map inj_onD)
      with pp np show False by simp
    qed
    then have "stamp_of clk (clock_reads s) pending (transmission_uuid ?x) = None"
      by (simp add: stamp_of_None)
    then have "stamped clk (clock_reads s) pending ?x = ?x"
      by (simp add: stamped_def)
    with k show ?thesis by (simp add: tr)
  qed
  have t1: "transmissions s1 = transmissions s'"
    using assms(4) by (simp add: s1_def c3)
  have c7: "pending_transmissions self s1 = []"
    using pending_cong [OF t1, of self] pending_after_loop [of self clk s]
    by (simp add: s'_def pending_def)
  have c8: "receive_all clk update self s1 = update self [] s1"
    by (simp add: receive_all_eq c7)
  from c1 c2 c3 cl cp c4 c5 c6 c7 c8 show ?thesis
    unfolding Let_def pending_def [symmetric] payload_def [symmetric] s'_def [symmetric]
      s1_def [symmetric]
    by blast
qed

lemma Node_update_keeps_transmissions:
  "\<forall>a xs st. transmissions (snd (Node_update a xs st)) = transmissions st"
  by (simp add: Node_update_def)

lemma pending_store_tx:
  "pending_transmissions 12 store_tx =
     [\<lparr>transmission_uuid = 51, transmission_info_uuid = 8, transmit_time = 30,
        receive_time = None, transmission_destination_uuid = 12\<rparr>,
      \<lparr>transmission_uuid = 50, transmission_info_uuid = 8, transmit_time = 31,
        receive_time = None, transmission_destination_uuid = 12\<rparr>]"
  by (simp add: pending_transmissions_def store_tx_def)

theorem receive_all_delivers_once_witness:
  "distinct (map transmission_uuid (transmissions store_tx))
   \<and> receive_all ex_clock Node_update 12 store_tx =
       Node_update 12 [Some info_x, Some info_x]
         (receive_loop ex_clock (pending_transmissions 12 store_tx) store_tx)
   \<and> map transmission_uuid (pending_transmissions 12 store_tx) = [51, 50]
   \<and> map (\<lambda>t. get_info (transmission_info_uuid t) store_tx) (pending_transmissions 12 store_tx)
       = [Some info_x, Some info_x]
   \<and> find (\<lambda>x. transmission_uuid x = 51)
        (transmissions (receive_loop ex_clock (pending_transmissions 12 store_tx) store_tx))
       = Some \<lparr>transmission_uuid = 51, transmission_info_uuid = 8, transmit_time = 30,
               receive_time = Some 1001, transmission_destination_uuid = 12\<rparr>
   \<and> find (\<lambda>x. transmission_uuid x = 50)
        (transmissions (receive_loop ex_clock (pending_transmissions 12 store_tx) store_tx))
       = Some \<lparr>transmission_uuid = 50, transmission_info_uuid = 8, transmit_time = 31,
               receive_time = Some 1003, transmission_destination_uuid = 12\<rparr>
   \<and> pending_transmissions 12 (snd (receive_all ex_clock Node_update 12 store_tx)) = []
   \<and> receive_all ex_clock Node_update 12 (snd (receive_all ex_clock Node_update 12 store_tx))
       = Node_update 12 [] (snd (receive_all ex_clock Node_update 12 store_tx))"
proof -
  have d: "distinct (map transmission_uuid (transmissions store_tx))"
    by (simp add: store_tx_def)
  have g: "get_info 8 store_tx = Some info_x"
    by (simp add: get_info_def store_tx_def store0_def info_x_def)
  have r: "clock_reads store_tx = 0" by (simp add: store_tx_def store0_def)
  have di: "distinct (map info_uuid (infos store_tx))"
    by (simp add: store_tx_def store0_def)
  have fk: "\<forall>t\<in>set (transmissions store_tx).
              \<exists>x\<in>set (infos store_tx). info_uuid x = transmission_info_uuid t"
    by (simp add: store_tx_def store0_def info_x_def)
  note t = receive_all_delivers_once [OF d di fk Node_update_keeps_transmissions, of 12 ex_clock,
      unfolded Let_def]
  from t have a: "receive_all ex_clock Node_update 12 store_tx =
       Node_update 12 (map (\<lambda>t. get_info (transmission_info_uuid t) store_tx)
                         (pending_transmissions 12 store_tx))
         (receive_loop ex_clock (pending_transmissions 12 store_tx) store_tx)"
    by blast
  from t have b: "\<forall>i<length (pending_transmissions 12 store_tx).
      find (\<lambda>x. transmission_uuid x = transmission_uuid (pending_transmissions 12 store_tx ! i))
        (transmissions (receive_loop ex_clock (pending_transmissions 12 store_tx) store_tx))
      = Some ((pending_transmissions 12 store_tx ! i)
                \<lparr>receive_time := Some (ex_clock (clock_reads store_tx + 2 * i + 1))\<rparr>)"
    by blast
  from t have c: "pending_transmissions 12 (snd (receive_all ex_clock Node_update 12 store_tx)) = []"
    by blast
  from t have e: "receive_all ex_clock Node_update 12 (snd (receive_all ex_clock Node_update 12 store_tx))
       = Node_update 12 [] (snd (receive_all ex_clock Node_update 12 store_tx))"
    by blast
  have b0: "find (\<lambda>x. transmission_uuid x = 51)
        (transmissions (receive_loop ex_clock (pending_transmissions 12 store_tx) store_tx))
       = Some \<lparr>transmission_uuid = 51, transmission_info_uuid = 8, transmit_time = 30,
               receive_time = Some 1001, transmission_destination_uuid = 12\<rparr>"
    using b [rule_format, of 0] by (simp add: pending_store_tx r ex_clock_def)
  have b1: "find (\<lambda>x. transmission_uuid x = 50)
        (transmissions (receive_loop ex_clock (pending_transmissions 12 store_tx) store_tx))
       = Some \<lparr>transmission_uuid = 50, transmission_info_uuid = 8, transmit_time = 31,
               receive_time = Some 1003, transmission_destination_uuid = 12\<rparr>"
    using b [rule_format, of 1] by (simp add: pending_store_tx r ex_clock_def)
  from t have p: "\<forall>i<length (pending_transmissions 12 store_tx).
      \<exists>x\<in>set (infos store_tx).
        map (\<lambda>t. get_info (transmission_info_uuid t) store_tx) (pending_transmissions 12 store_tx) ! i
          = Some x
        \<and> info_uuid x = transmission_info_uuid (pending_transmissions 12 store_tx ! i)
        \<and> (\<forall>y\<in>set (infos store_tx). info_uuid y = info_uuid x \<longrightarrow> y = x)"
    by blast
  have i: "infos store_tx = [info_x]" by (simp add: store_tx_def store0_def)
  have l: "length (pending_transmissions 12 store_tx) = 2" by (simp add: pending_store_tx)
  have p0: "map (\<lambda>t. get_info (transmission_info_uuid t) store_tx) (pending_transmissions 12 store_tx) ! 0
              = Some info_x"
    using p [rule_format, of 0] by (auto simp: i l)
  have p1: "map (\<lambda>t. get_info (transmission_info_uuid t) store_tx) (pending_transmissions 12 store_tx) ! 1
              = Some info_x"
    using p [rule_format, of 1] by (auto simp: i l)
  have pl: "map (\<lambda>t. get_info (transmission_info_uuid t) store_tx) (pending_transmissions 12 store_tx)
              = [Some info_x, Some info_x]"
  proof (rule nth_equalityI)
    show "length (map (\<lambda>t. get_info (transmission_info_uuid t) store_tx)
                    (pending_transmissions 12 store_tx)) = length [Some info_x, Some info_x]"
      by (simp add: l)
  next
    fix k
    assume "k < length (map (\<lambda>t. get_info (transmission_info_uuid t) store_tx)
                          (pending_transmissions 12 store_tx))"
    then have "k = 0 \<or> k = 1" by (auto simp: l)
    with p0 p1 show "map (\<lambda>t. get_info (transmission_info_uuid t) store_tx)
                       (pending_transmissions 12 store_tx) ! k = [Some info_x, Some info_x] ! k"
      by auto
  qed
  have a': "receive_all ex_clock Node_update 12 store_tx =
       Node_update 12 [Some info_x, Some info_x]
         (receive_loop ex_clock (pending_transmissions 12 store_tx) store_tx)"
    using a pl by simp
  have m: "map transmission_uuid (pending_transmissions 12 store_tx) = [51, 50]"
    by (simp add: pending_store_tx)
  from d a' m pl b0 b1 c e show ?thesis by blast
qed

end
